theory Spec2Isabelle
  imports Complex_Main "HOL-Library.Multiset" "HOL-Library.Sublist"
begin

text \<open>
  An embedding of the article clustering service (tokenizer, similarity, greedy
  clustering, story creation, the clustering job), of the synthesis service it calls, of
  the job guard of the scheduler and of the route that starts the clustering job. The functions of the source are functions here, under
  their names. What the source mutates is passed along: the cluster being grown and the
  set of assigned ids in the two loops, the tables of the store in story creation, the job
  status in the scheduler. What the code takes from outside is a parameter: the reading
  of dates, the clock, the reply of the synthesis service, \<open>JSON.parse\<close>, the pattern
  match of the store, and whether a call of the store works.
\<close>

section \<open>JavaScript numbers\<close>

text \<open>
  The similarity scores, the threshold and the value of the sort comparator are JavaScript
  numbers. A finite double is idealised as a real; the three special values are kept,
  because the code produces one of them: \<open>0 / 0\<close> is \<open>NaN\<close>, and every comparison
  with \<open>NaN\<close> is false. Rounding and the sign of zero are not modelled.
\<close>

datatype jsnum = NaN | PInf | NInf | Num real

fun js_add :: "jsnum \<Rightarrow> jsnum \<Rightarrow> jsnum" where
  "js_add NaN y = NaN"
| "js_add x NaN = NaN"
| "js_add PInf NInf = NaN"
| "js_add NInf PInf = NaN"
| "js_add PInf y = PInf"
| "js_add x PInf = PInf"
| "js_add NInf y = NInf"
| "js_add x NInf = NInf"
| "js_add (Num a) (Num b) = Num (a + b)"

fun js_div :: "jsnum \<Rightarrow> jsnum \<Rightarrow> jsnum" where
  "js_div NaN y = NaN"
| "js_div x NaN = NaN"
| "js_div PInf PInf = NaN"
| "js_div PInf NInf = NaN"
| "js_div NInf PInf = NaN"
| "js_div NInf NInf = NaN"
| "js_div PInf (Num b) = (if b < 0 then NInf else PInf)"
| "js_div NInf (Num b) = (if b < 0 then PInf else NInf)"
| "js_div (Num a) PInf = Num 0"
| "js_div (Num a) NInf = Num 0"
| "js_div (Num a) (Num b) =
     (if b \<noteq> 0 then Num (a / b)
      else if a = 0 then NaN
      else if a < 0 then NInf else PInf)"

text \<open>\<open>x >= y\<close>\<close>

fun js_ge :: "jsnum \<Rightarrow> jsnum \<Rightarrow> bool" where
  "js_ge NaN y = False"
| "js_ge x NaN = False"
| "js_ge PInf y = True"
| "js_ge x NInf = True"
| "js_ge NInf y = False"
| "js_ge x PInf = False"
| "js_ge (Num a) (Num b) = (b \<le> a)"

text \<open>\<open>Math.min(x, y)\<close>\<close>

fun Math_min :: "jsnum \<Rightarrow> jsnum \<Rightarrow> jsnum" where
  "Math_min NaN y = NaN"
| "Math_min x NaN = NaN"
| "Math_min NInf y = NInf"
| "Math_min x NInf = NInf"
| "Math_min PInf y = y"
| "Math_min x PInf = x"
| "Math_min (Num a) (Num b) = Num (min a b)"

section \<open>Articles and clusters\<close>

record article =
  id_a :: string
  title :: string
  excerpt :: string
  url :: string
  source :: string
  published_at :: string
  image_url :: "string option"

record cluster =
  articles :: "article list"
  similarity :: jsnum

section \<open>Tokenizer\<close>

text \<open>
  A string is the list of its code units; the model covers the code units below 256.
  \<open>toLowerCase\<close> moves \<open>A-Z\<close> and the upper-case letters of Latin-1 up by 32, which
  in these two ranges is setting the bit of weight 32.
\<close>

definition toLowerCase_char :: "char \<Rightarrow> char" where
  "toLowerCase_char c =
     (let n = (of_char c :: nat)
      in if (65 \<le> n \<and> n \<le> 90) \<or> (192 \<le> n \<and> n \<le> 222 \<and> n \<noteq> 215)
         then (case c of Char b0 b1 b2 b3 b4 b5 b6 b7 \<Rightarrow> Char b0 b1 b2 b3 b4 True b6 b7)
         else c)"

definition toLowerCase :: "string \<Rightarrow> string" where
  "toLowerCase s = map toLowerCase_char s"

text \<open>The class \<open>\w\<close> is \<open>[A-Za-z0-9_]\<close>.\<close>

definition is_word_char :: "char \<Rightarrow> bool" where
  "is_word_char c =
     (let n = (of_char c :: nat)
      in (65 \<le> n \<and> n \<le> 90) \<or> (97 \<le> n \<and> n \<le> 122) \<or> (48 \<le> n \<and> n \<le> 57) \<or> n = 95)"

text \<open>The class \<open>\s\<close> below 256: tab, line feed, vertical tab, form feed, carriage return,
  space and the no-break space.\<close>

definition is_space_char :: "char \<Rightarrow> bool" where
  "is_space_char c =
     (let n = (of_char c :: nat) in (9 \<le> n \<and> n \<le> 13) \<or> n = 32 \<or> n = 160)"

text \<open>\<open>.replace(/[^\w\s]/g, ' ')\<close>\<close>

definition replace_punct :: "string \<Rightarrow> string" where
  "replace_punct s =
     map (\<lambda>c. if is_word_char c \<or> is_space_char c then c else CHR '' '') s"

text \<open>
  \<open>.split(/\s+/)\<close>: a run of white space is one separator; a separator at either end of
  the text leaves an empty string there, and the empty text splits into one empty string.
  The flag says that the character before was white space.
\<close>

fun split_ws :: "bool \<Rightarrow> string \<Rightarrow> string \<Rightarrow> string list" where
  "split_ws in_sep cur [] = [rev cur]"
| "split_ws in_sep cur (c # cs) =
     (if is_space_char c
      then (if in_sep then split_ws True cur cs else rev cur # split_ws True [] cs)
      else split_ws False (c # cur) cs)"

definition stopWords :: "string list" where
  "stopWords =
    [''the'', ''a'', ''an'', ''and'', ''or'', ''but'', ''in'', ''on'', ''at'', ''to'', ''for'',
     ''of'', ''with'', ''by'', ''from'', ''is'', ''are'', ''was'', ''were'', ''be'', ''been'',
     ''being'', ''have'', ''has'', ''had'', ''do'', ''does'', ''did'', ''will'', ''would'',
     ''could'', ''should'', ''may'', ''might'', ''must'', ''shall'', ''can'', ''need'',
     ''its'', ''it'', ''this'', ''that'', ''these'', ''those'', ''he'', ''she'', ''they'',
     ''we'', ''you'', ''i'', ''his'', ''her'', ''their'', ''our'', ''your'', ''my'', ''as'',
     ''said'', ''says'', ''according'', ''also'', ''just'', ''about'', ''after'', ''before'',
     ''new'', ''first'', ''last'', ''year'', ''years'', ''day'', ''days'', ''time'', ''more'',
     ''some'', ''any'', ''all'', ''most'', ''other'', ''into'', ''over'', ''such'', ''no'',
     ''not'', ''only'', ''than'', ''then'', ''now'', ''out'', ''up'', ''down'', ''so'', ''if'']"

definition tokenize :: "string \<Rightarrow> string list" where
  "tokenize text =
     filter (\<lambda>word. length word > 2 \<and> word \<notin> set stopWords)
       (split_ws False [] (replace_punct (toLowerCase text)))"

section \<open>Similarity\<close>

text \<open>\<open>new Set(xs)\<close>: the distinct elements, each at its first occurrence.\<close>

definition new_Set :: "'a list \<Rightarrow> 'a list" where
  "new_Set xs = rev (remdups (rev xs))"

definition jaccardSimilarity :: "string list \<Rightarrow> string list \<Rightarrow> jsnum" where
  "jaccardSimilarity tokens1 tokens2 =
     (let set1 = new_Set tokens1;
          set2 = new_Set tokens2;
          intersection = new_Set (filter (\<lambda>x. x \<in> set set2) set1);
          union = new_Set (set1 @ set2)
      in js_div (Num (real (length intersection))) (Num (real (length union))))"

text \<open>
  The frequency maps of \<open>cosineSimilarity\<close>: \<open>freq.set(t, (freq.get(t) || 0) + 1)\<close> for
  each token. The counts, their products and the sums of these are natural numbers, so
  they stay natural numbers here; the quotient is a JavaScript number.
\<close>

definition freq_set :: "(string \<rightharpoonup> nat) \<Rightarrow> string \<Rightarrow> (string \<rightharpoonup> nat)" where
  "freq_set m t = m(t \<mapsto> (case m t of None \<Rightarrow> 0 | Some n \<Rightarrow> n) + 1)"

definition freq_of :: "string list \<Rightarrow> (string \<rightharpoonup> nat)" where
  "freq_of tokens = foldl freq_set Map.empty tokens"

definition freq_get :: "(string \<rightharpoonup> nat) \<Rightarrow> string \<Rightarrow> nat" where
  "freq_get m t = (case m t of None \<Rightarrow> 0 | Some n \<Rightarrow> n)"

definition cosineSimilarity :: "string list \<Rightarrow> string list \<Rightarrow> jsnum" where
  "cosineSimilarity tokens1 tokens2 =
     (let freq1 = freq_of tokens1;
          freq2 = freq_of tokens2;
          allTerms = new_Set (new_Set tokens1 @ new_Set tokens2);
          dotProduct = sum_list (map (\<lambda>term. freq_get freq1 term * freq_get freq2 term) allTerms);
          magnitude1 = sum_list (map (\<lambda>term. freq_get freq1 term * freq_get freq1 term) allTerms);
          magnitude2 = sum_list (map (\<lambda>term. freq_get freq2 term * freq_get freq2 term) allTerms)
      in if magnitude1 = 0 \<or> magnitude2 = 0 then Num 0
         else Num (real dotProduct / (sqrt (real magnitude1) * sqrt (real magnitude2))))"

definition article_text :: "article \<Rightarrow> string" where
  "article_text a = title a @ '' '' @ excerpt a"

definition calculateSimilarity :: "article \<Rightarrow> article \<Rightarrow> jsnum" where
  "calculateSimilarity article1 article2 =
     (let tokens1 = tokenize (article_text article1);
          tokens2 = tokenize (article_text article2);
          jaccard = jaccardSimilarity tokens1 tokens2;
          cosine = cosineSimilarity tokens1 tokens2
      in js_div (js_add jaccard cosine) (Num 2))"

section \<open>Greedy clustering\<close>

text \<open>
  The time value of \<open>new Date(s).getTime()\<close> belongs to the runtime, so it is a parameter:
  \<open>None\<close> is the \<open>NaN\<close> of a string that is no date. The comparator of the recency sort
  is the difference of two time values.
\<close>

definition recency_cmp :: "(string \<Rightarrow> int option) \<Rightarrow> article \<Rightarrow> article \<Rightarrow> jsnum" where
  "recency_cmp getTime a b =
     (case (getTime (published_at b), getTime (published_at a)) of
        (Some tb, Some ta) \<Rightarrow> Num (real_of_int (tb - ta))
      | _ \<Rightarrow> NaN)"

text \<open>
  \<open>Array.prototype.sort\<close> reads a comparator value that is \<open>NaN\<close> as \<open>0\<close> and is stable.
  For a consistent comparator the sorted list is thereby determined, and a stable insertion
  sort computes it; where the comparator is not consistent the order is left to the engine,
  and the insertion sort is one admissible choice.
\<close>

fun cmp_positive :: "jsnum \<Rightarrow> bool" where
  "cmp_positive (Num v) = (0 < v)"
| "cmp_positive PInf = True"
| "cmp_positive NInf = False"
| "cmp_positive NaN = False"

fun sort_insert :: "('a \<Rightarrow> 'a \<Rightarrow> jsnum) \<Rightarrow> 'a \<Rightarrow> 'a list \<Rightarrow> 'a list" where
  "sort_insert cmp x [] = [x]"
| "sort_insert cmp x (y # ys) =
     (if cmp_positive (cmp x y) then y # sort_insert cmp x ys else x # y # ys)"

definition array_sort :: "('a \<Rightarrow> 'a \<Rightarrow> jsnum) \<Rightarrow> 'a list \<Rightarrow> 'a list" where
  "array_sort cmp xs = foldr (sort_insert cmp) xs []"

text \<open>The average of the similarities of a candidate with every member of the cluster.\<close>

definition avgSimilarity :: "article list \<Rightarrow> article \<Rightarrow> jsnum" where
  "avgSimilarity members candidate =
     (let similarities = map (\<lambda>a. calculateSimilarity a candidate) members
      in js_div (foldl js_add (Num 0) similarities) (Num (real (length similarities))))"

text \<open>The inner loop over the candidates: the cluster being grown and the assigned ids.\<close>

fun grow :: "jsnum \<Rightarrow> article list \<Rightarrow> cluster \<times> string set \<Rightarrow> cluster \<times> string set" where
  "grow threshold [] (c, assigned) = (c, assigned)"
| "grow threshold (candidate # rest) (c, assigned) =
     (if id_a candidate \<in> assigned then grow threshold rest (c, assigned)
      else
        let avg = avgSimilarity (articles c) candidate
        in if js_ge avg threshold
           then grow threshold rest
                  (c\<lparr>articles := articles c @ [candidate],
                     similarity := Math_min (similarity c) avg\<rparr>,
                   insert (id_a candidate) assigned)
           else grow threshold rest (c, assigned))"

text \<open>The outer loop over the sorted articles: the clusters so far and the assigned ids.\<close>

fun seed_loop :: "jsnum \<Rightarrow> article list \<Rightarrow> article list \<Rightarrow> cluster list \<times> string set
    \<Rightarrow> cluster list \<times> string set" where
  "seed_loop threshold sorted_arts [] (clusters, assigned) = (clusters, assigned)"
| "seed_loop threshold sorted_arts (a # rest) (clusters, assigned) =
     (if id_a a \<in> assigned then seed_loop threshold sorted_arts rest (clusters, assigned)
      else
        case grow threshold sorted_arts
               (\<lparr>articles = [a], similarity = Num 1\<rparr>, insert (id_a a) assigned) of
          (c, assigned') \<Rightarrow> seed_loop threshold sorted_arts rest (clusters @ [c], assigned'))"

definition clusterArticles :: "(string \<Rightarrow> int option) \<Rightarrow> article list \<Rightarrow> jsnum \<Rightarrow> cluster list" where
  "clusterArticles getTime arts threshold =
     (let sorted_arts = array_sort (recency_cmp getTime) arts
      in fst (seed_loop threshold sorted_arts sorted_arts ([], {})))"

section \<open>Synthesis\<close>

record citation =
  cite_source :: string
  cite_article_id :: string

record synthesis_section =
  sec_title :: string
  sec_content :: string
  sec_citations :: "citation list"

record extracted_entity =
  ent_name :: string
  ent_type :: string
  ent_role :: string
  ent_context :: string

record entity_connection =
  conn_source :: string
  conn_target :: string
  conn_relationship :: string
  conn_evidence :: string
  conn_strength :: real

record impact_prediction =
  imp_sector :: string
  imp_type :: string
  imp_severity :: real
  imp_prediction :: string
  imp_confidence :: real

text \<open>
  A \<open>SynthesisResult\<close> is either built by the fallback or is the parsed reply of the
  service, cast to the interface without a check. So the three lists that the code later
  iterates may be missing from it: \<open>None\<close> is \<open>undefined\<close>, and iterating it raises a
  \<open>TypeError\<close>. (The optional timeline is never read and is left out.)
\<close>

record synthesis_result =
  syn_title :: string
  syn_summary :: string
  syn_sections :: "synthesis_section list"
  syn_entities :: "extracted_entity list option"
  syn_connections :: "entity_connection list option"
  syn_impacts :: "impact_prediction list option"

text \<open>The reply as \<open>JSON.parse\<close> returns it: citations carry \<open>article_index\<close>.\<close>

record raw_citation =
  raw_source :: string
  raw_article_index :: "int option"

record raw_section =
  raw_title :: string
  raw_content :: string
  raw_citations :: "raw_citation list option"

record payload =
  pay_title :: string
  pay_summary :: string
  pay_sections :: "raw_section list option"
  pay_entities :: "extracted_entity list option"
  pay_connections :: "entity_connection list option"
  pay_impacts :: "impact_prediction list option"

text \<open>
  The call \<open>groq.chat.completions.create\<close> is rejected, or returns a completion whose
  \<open>choices[0]?.message?.content\<close> is a string or missing.
\<close>

datatype completion = Rejected | Reply "string option"

text \<open>
  What the code takes from outside: the reading of dates and the clock of the runtime, the
  reply of the synthesis service to a request (a request is built from the article list),
  \<open>JSON.parse\<close> (\<open>None\<close> when it raises), and the pattern match \<open>ilike\<close> of the store
  (pattern first).
\<close>

record env =
  Date_getTime :: "string \<Rightarrow> int option"
  Date_now :: int
  groq_create :: "article list \<Rightarrow> completion"
  JSON_parse :: "string \<Rightarrow> payload option"
  ilike :: "string \<Rightarrow> string \<Rightarrow> bool"

definition trim :: "string \<Rightarrow> string" where
  "trim s = rev (dropWhile is_space_char (rev (dropWhile is_space_char s)))"

definition startsWith :: "string \<Rightarrow> string \<Rightarrow> bool" where
  "startsWith s p = (take (length p) s = p)"

definition endsWith :: "string \<Rightarrow> string \<Rightarrow> bool" where
  "endsWith s p = (length p \<le> length s \<and> drop (length s - length p) s = p)"

text \<open>
  \<open>.replace(/^```json?\n?/, '').replace(/\n?```$/, '')\<close>: the first pattern is three
  backticks and \<open>jso\<close>, then an optional \<open>n\<close>, then an optional line feed; the second is
  an optional line feed and three backticks at the very end.
\<close>

definition strip_code_fence :: "string \<Rightarrow> string" where
  "strip_code_fence s =
     (let s1 = (if startsWith s ''```jso''
                then (let r = drop 6 s;
                          r1 = (if startsWith r ''n'' then drop 1 r else r)
                      in if startsWith r1 [CHR 0x0A] then drop 1 r1 else r1)
                else s)
      in if endsWith s1 ''```''
         then (let r = take (length s1 - 3) s1
               in if endsWith r [CHR 0x0A] then take (length r - 1) r else r)
         else s1)"

definition extract_json :: "string \<Rightarrow> string" where
  "extract_json content =
     (let jsonStr = trim content
      in if startsWith jsonStr ''```'' then strip_code_fence jsonStr else jsonStr)"

text \<open>\<open>xs.join(sep)\<close>\<close>

fun js_join :: "string \<Rightarrow> string list \<Rightarrow> string" where
  "js_join sep [] = []"
| "js_join sep [x] = x"
| "js_join sep (x # y # ys) = x @ sep @ js_join sep (y # ys)"

text \<open>
  \<open>articles[citation.article_index ?? 0]?.id || articles[0].id\<close>, for a non-empty
  article list: an index out of range and an empty id both give the id of the first
  article.
\<close>

definition map_citation :: "article list \<Rightarrow> raw_citation \<Rightarrow> citation" where
  "map_citation arts c =
     (let articleIndex = (case raw_article_index c of None \<Rightarrow> 0 | Some i \<Rightarrow> i)
      in \<lparr>cite_source = raw_source c,
          cite_article_id =
            (if 0 \<le> articleIndex \<and> articleIndex < int (length arts)
                \<and> id_a (arts ! nat articleIndex) \<noteq> []
             then id_a (arts ! nat articleIndex)
             else id_a (arts ! 0))\<rparr>)"

definition map_section :: "article list \<Rightarrow> raw_section \<Rightarrow> synthesis_section option" where
  "map_section arts s =
     (case raw_citations s of
        None \<Rightarrow> None
      | Some cs \<Rightarrow> Some \<lparr>sec_title = raw_title s, sec_content = raw_content s,
                        sec_citations = map (map_citation arts) cs\<rparr>)"

text \<open>
  The body of the \<open>try\<close> block of \<open>synthesizeArticles\<close>; \<open>None\<close> is an exception raised
  in it: the call is rejected, the content is missing or empty, \<open>JSON.parse\<close> raises, or
  \<open>sections\<close> or the \<open>citations\<close> of a section are missing.
\<close>

definition try_synthesis :: "env \<Rightarrow> article list \<Rightarrow> synthesis_result option" where
  "try_synthesis e arts =
     (case groq_create e arts of
        Rejected \<Rightarrow> None
      | Reply None \<Rightarrow> None
      | Reply (Some content) \<Rightarrow>
          if content = [] then None
          else
            (case JSON_parse e (extract_json content) of
               None \<Rightarrow> None
             | Some p \<Rightarrow>
                 (case pay_sections p of
                    None \<Rightarrow> None
                  | Some secs \<Rightarrow>
                      (case those (map (map_section arts) secs) of
                         None \<Rightarrow> None
                       | Some sections \<Rightarrow>
                           Some \<lparr>syn_title = pay_title p, syn_summary = pay_summary p,
                                 syn_sections = sections,
                                 syn_entities = pay_entities p,
                                 syn_connections = pay_connections p,
                                 syn_impacts = pay_impacts p\<rparr>))))"

text \<open>The basic synthesis returned by the \<open>catch\<close> block.\<close>

definition fallback_synthesis :: "article list \<Rightarrow> synthesis_result" where
  "fallback_synthesis arts =
     \<lparr>syn_title = title (arts ! 0),
      syn_summary = excerpt (arts ! 0),
      syn_sections =
        [\<lparr>sec_title = ''Summary'',
          sec_content = js_join '' '' (map (\<lambda>a. excerpt a @ '' ['' @ source a @ '']'') arts),
          sec_citations = map (\<lambda>a. \<lparr>cite_source = source a, cite_article_id = id_a a\<rparr>) arts\<rparr>],
      syn_entities = Some [],
      syn_connections = Some [],
      syn_impacts = Some []\<rparr>"

datatype error = No_articles_provided

definition synthesizeArticles :: "env \<Rightarrow> article list \<Rightarrow> error + synthesis_result" where
  "synthesizeArticles e arts =
     (if length arts = 0 then Inl No_articles_provided
      else case try_synthesis e arts of
             Some result \<Rightarrow> Inr result
           | None \<Rightarrow> Inr (fallback_synthesis arts))"


section \<open>The store\<close>

text \<open>
  The tables that story creation reads and writes, with the keys the schema declares for
  them. Ids that the store generates are natural numbers here.
\<close>

record story =
  story_id :: nat
  story_title :: string
  story_summary :: string
  story_synthesis :: "synthesis_section list"
  story_hero_image_url :: "string option"
  story_status :: string
  story_published_at :: int

record story_article =
  sa_story_id :: nat
  sa_article_id :: string
  sa_relevance_score :: jsnum

record entity =
  entity_id :: nat
  entity_name :: string
  entity_type :: string

record story_entity =
  se_story_id :: nat
  se_entity_id :: nat
  se_role :: string
  se_context :: string

record connection_row =
  ec_id :: nat
  ec_source_entity_id :: nat
  ec_target_entity_id :: nat
  ec_relationship_type :: string
  ec_relationship_label :: string
  ec_strength :: real
  ec_evidence :: string
  ec_story_id :: nat

record story_impact =
  si_story_id :: nat
  si_sector_id :: string
  si_impact_type :: string
  si_severity :: real
  si_prediction :: string
  si_confidence :: real

text \<open>A row of \<open>articles\<close> as the query of \<open>getUnassignedArticles\<close> selects it, with the
  name of its news source.\<close>

record article_row =
  row_id :: string
  row_title :: string
  row_excerpt :: "string option"
  row_url :: string
  row_published_at :: string
  row_image_url :: "string option"
  row_source_name :: "string option"

text \<open>
  A call of the store works, or answers with an error (\<open>data\<close> is \<open>null\<close>; so does a row
  that breaks a check or a foreign key, neither of which is modelled), or its promise is
  rejected, which raises at the \<open>await\<close>. The store carries the outcomes of the calls to
  come; when the list is used up, calls work.
\<close>

datatype fault = Works | Fails | Throws

record db =
  articles_table :: "article_row list"
  stories :: "story list"
  story_articles :: "story_article list"
  entities :: "entity list"
  story_entities :: "story_entity list"
  entity_connections :: "connection_row list"
  story_impacts :: "story_impact list"
  next_id :: nat
  faults :: "fault list"

definition next_fault :: "db \<Rightarrow> fault \<times> db" where
  "next_fault d = (case faults d of [] \<Rightarrow> (Works, d) | f # fs \<Rightarrow> (f, d\<lparr>faults := fs\<rparr>))"

text \<open>
  The result of a step that may raise: \<open>Inl\<close> is the store at the moment of the exception,
  \<open>Inr\<close> the value and the store.
\<close>

type_synonym 'a attempt = "db + 'a \<times> db"

text \<open>\<open>.from('stories').insert(row).select('id').single()\<close>\<close>

definition insert_story :: "string \<Rightarrow> string \<Rightarrow> synthesis_section list \<Rightarrow> string option \<Rightarrow> int
    \<Rightarrow> db \<Rightarrow> nat option attempt" where
  "insert_story t s secs hero now d =
     (case next_fault d of
        (Throws, d1) \<Rightarrow> Inl d1
      | (Fails, d1) \<Rightarrow> Inr (None, d1)
      | (Works, d1) \<Rightarrow>
          Inr (Some (next_id d1),
               d1\<lparr>stories := stories d1 @
                     [\<lparr>story_id = next_id d1, story_title = t, story_summary = s,
                       story_synthesis = secs, story_hero_image_url = hero,
                       story_status = ''published'', story_published_at = now\<rparr>],
                   next_id := next_id d1 + 1\<rparr>))"

text \<open>\<open>.from('story_articles').insert(articleLinks)\<close>: one statement, which the primary
  key (story, article) refuses as a whole. The answer is not read.\<close>

definition insert_story_articles :: "story_article list \<Rightarrow> db \<Rightarrow> unit attempt" where
  "insert_story_articles links d =
     (case next_fault d of
        (Throws, d1) \<Rightarrow> Inl d1
      | (Fails, d1) \<Rightarrow> Inr ((), d1)
      | (Works, d1) \<Rightarrow>
          (let key = (\<lambda>l. (sa_story_id l, sa_article_id l))
           in if distinct (map key links) \<and> set (map key links) \<inter> set (map key (story_articles d1)) = {}
              then Inr ((), d1\<lparr>story_articles := story_articles d1 @ links\<rparr>)
              else Inr ((), d1)))"

text \<open>\<open>.from('entities').select('id').ilike('name', name).single()\<close>: the id when
  exactly one row matches.\<close>

definition select_entity :: "env \<Rightarrow> string \<Rightarrow> db \<Rightarrow> nat option attempt" where
  "select_entity e name d =
     (case next_fault d of
        (Throws, d1) \<Rightarrow> Inl d1
      | (Fails, d1) \<Rightarrow> Inr (None, d1)
      | (Works, d1) \<Rightarrow>
          (case filter (\<lambda>r. ilike e name (entity_name r)) (entities d1) of
             [r] \<Rightarrow> Inr (Some (entity_id r), d1)
           | _ \<Rightarrow> Inr (None, d1)))"

text \<open>\<open>.from('entities').insert({name, type}).select('id').single()\<close>, refused when the
  pair of name and type is there already.\<close>

definition insert_entity :: "string \<Rightarrow> string \<Rightarrow> db \<Rightarrow> nat option attempt" where
  "insert_entity name ty d =
     (case next_fault d of
        (Throws, d1) \<Rightarrow> Inl d1
      | (Fails, d1) \<Rightarrow> Inr (None, d1)
      | (Works, d1) \<Rightarrow>
          if \<exists>r\<in>set (entities d1). entity_name r = name \<and> entity_type r = ty
          then Inr (None, d1)
          else Inr (Some (next_id d1),
                    d1\<lparr>entities := entities d1 @
                          [\<lparr>entity_id = next_id d1, entity_name = name, entity_type = ty\<rparr>],
                        next_id := next_id d1 + 1\<rparr>))"

text \<open>\<open>.from('story_entities').upsert(row)\<close> without \<open>onConflict\<close>: the conflict target
  is the generated primary key, so the row is inserted, unless the pair of story and entity
  is there already, which the store refuses. The answer is not read.\<close>

definition upsert_story_entity :: "story_entity \<Rightarrow> db \<Rightarrow> unit attempt" where
  "upsert_story_entity row d =
     (case next_fault d of
        (Throws, d1) \<Rightarrow> Inl d1
      | (Fails, d1) \<Rightarrow> Inr ((), d1)
      | (Works, d1) \<Rightarrow>
          if \<exists>r\<in>set (story_entities d1).
               se_story_id r = se_story_id row \<and> se_entity_id r = se_entity_id row
          then Inr ((), d1)
          else Inr ((), d1\<lparr>story_entities := story_entities d1 @ [row]\<rparr>))"

text \<open>
  \<open>.from('entity_connections').upsert(row, {onConflict:
  'source_entity_id,target_entity_id,relationship_type'})\<close>: a row with the same triple
  takes the label, strength, evidence and story of the new one and keeps its id; without
  such a row the new one is inserted. The answer is not read.
\<close>

definition same_triple :: "connection_row \<Rightarrow> connection_row \<Rightarrow> bool" where
  "same_triple r row \<longleftrightarrow>
     ec_source_entity_id r = ec_source_entity_id row \<and>
     ec_target_entity_id r = ec_target_entity_id row \<and>
     ec_relationship_type r = ec_relationship_type row"

definition upsert_rows :: "connection_row \<Rightarrow> connection_row list \<Rightarrow> connection_row list" where
  "upsert_rows row rows =
     (if \<exists>r\<in>set rows. same_triple r row
      then map (\<lambda>r. if same_triple r row then row\<lparr>ec_id := ec_id r\<rparr> else r) rows
      else rows @ [row])"

definition upsert_connection :: "connection_row \<Rightarrow> db \<Rightarrow> unit attempt" where
  "upsert_connection row d =
     (case next_fault d of
        (Throws, d1) \<Rightarrow> Inl d1
      | (Fails, d1) \<Rightarrow> Inr ((), d1)
      | (Works, d1) \<Rightarrow>
          Inr ((), d1\<lparr>entity_connections :=
                        upsert_rows (row\<lparr>ec_id := next_id d1\<rparr>) (entity_connections d1),
                      next_id := next_id d1 + 1\<rparr>))"

text \<open>\<open>.from('story_impacts').insert(impactInserts)\<close>: one statement, which the key
  (story, sector) refuses as a whole. The answer is not read.\<close>

definition insert_story_impacts :: "story_impact list \<Rightarrow> db \<Rightarrow> unit attempt" where
  "insert_story_impacts rows d =
     (case next_fault d of
        (Throws, d1) \<Rightarrow> Inl d1
      | (Fails, d1) \<Rightarrow> Inr ((), d1)
      | (Works, d1) \<Rightarrow>
          (let key = (\<lambda>r. (si_story_id r, si_sector_id r))
           in if distinct (map key rows) \<and> set (map key rows) \<inter> set (map key (story_impacts d1)) = {}
              then Inr ((), d1\<lparr>story_impacts := story_impacts d1 @ rows\<rparr>)
              else Inr ((), d1)))"

section \<open>Story creation\<close>

text \<open>A \<open>for ... of\<close> loop whose body may raise: the exception ends the loop.\<close>

fun for_each :: "('a \<Rightarrow> db \<Rightarrow> unit attempt) \<Rightarrow> 'a list \<Rightarrow> db \<Rightarrow> unit attempt" where
  "for_each body [] d = Inr ((), d)"
| "for_each body (x # xs) d =
     (case body x d of Inl d1 \<Rightarrow> Inl d1 | Inr (u, d1) \<Rightarrow> for_each body xs d1)"

text \<open>The body of the loop over \<open>synthesis.entities\<close>: find or create the entity, then
  link it to the story; \<open>continue\<close> when the entity could not be created.\<close>

definition save_entity :: "env \<Rightarrow> nat \<Rightarrow> extracted_entity \<Rightarrow> db \<Rightarrow> unit attempt" where
  "save_entity e sid ent d =
     (case select_entity e (ent_name ent) d of
        Inl d1 \<Rightarrow> Inl d1
      | Inr (existingEntity, d1) \<Rightarrow>
          (let link = (\<lambda>entityId. upsert_story_entity
                         \<lparr>se_story_id = sid, se_entity_id = entityId,
                          se_role = ent_role ent, se_context = ent_context ent\<rparr>)
           in case existingEntity of
                Some entityId \<Rightarrow> link entityId d1
              | None \<Rightarrow>
                  (case insert_entity (ent_name ent) (ent_type ent) d1 of
                     Inl d2 \<Rightarrow> Inl d2
                   | Inr (None, d2) \<Rightarrow> Inr ((), d2)
                   | Inr (Some entityId, d2) \<Rightarrow> link entityId d2)))"

text \<open>\<open>connection.relationship.replace(/_/g, ' ')\<close>\<close>

definition relationship_label :: "string \<Rightarrow> string" where
  "relationship_label r = map (\<lambda>c. if c = CHR ''_'' then CHR '' '' else c) r"

text \<open>The body of the loop over \<open>synthesis.connections\<close>: look both names up, and upsert
  the connection when both were found.\<close>

definition save_connection :: "env \<Rightarrow> nat \<Rightarrow> entity_connection \<Rightarrow> db \<Rightarrow> unit attempt" where
  "save_connection e sid conn d =
     (case select_entity e (conn_source conn) d of
        Inl d1 \<Rightarrow> Inl d1
      | Inr (sourceEntity, d1) \<Rightarrow>
          (case select_entity e (conn_target conn) d1 of
             Inl d2 \<Rightarrow> Inl d2
           | Inr (targetEntity, d2) \<Rightarrow>
               (case (sourceEntity, targetEntity) of
                  (Some s, Some t) \<Rightarrow>
                    upsert_connection
                      \<lparr>ec_id = 0, ec_source_entity_id = s, ec_target_entity_id = t,
                       ec_relationship_type = conn_relationship conn,
                       ec_relationship_label = relationship_label (conn_relationship conn),
                       ec_strength = conn_strength conn, ec_evidence = conn_evidence conn,
                       ec_story_id = sid\<rparr> d2
                | _ \<Rightarrow> Inr ((), d2))))"

definition save_impacts :: "nat \<Rightarrow> impact_prediction list \<Rightarrow> db \<Rightarrow> unit attempt" where
  "save_impacts sid impacts d =
     (let impactInserts =
            map (\<lambda>impact. \<lparr>si_story_id = sid, si_sector_id = imp_sector impact,
                            si_impact_type = imp_type impact, si_severity = imp_severity impact,
                            si_prediction = imp_prediction impact,
                            si_confidence = imp_confidence impact\<rparr>) impacts
      in if length impactInserts > 0 then insert_story_impacts impactInserts d
         else Inr ((), d))"

text \<open>\<open>articles.find(a => a.image_url)?.image_url\<close>: the first image that is there and
  not empty.\<close>

definition heroImage :: "article list \<Rightarrow> string option" where
  "heroImage arts =
     (case find (\<lambda>a. image_url a \<noteq> None \<and> image_url a \<noteq> Some []) arts of
        None \<Rightarrow> None
      | Some a \<Rightarrow> image_url a)"

text \<open>
  What follows the synthesis inside the \<open>try\<close> block of \<open>createStoryFromCluster\<close>. An
  exception (\<open>Inl\<close>, or a list missing from the synthesis) goes to the \<open>catch\<close> block,
  which returns \<open>null\<close>; the store stays as the exception found it.
\<close>

definition save_story_parts :: "env \<Rightarrow> nat \<Rightarrow> synthesis_result \<Rightarrow> db \<Rightarrow> unit attempt" where
  "save_story_parts e sid synthesis d =
     (case syn_entities synthesis of
        None \<Rightarrow> Inl d
      | Some ents \<Rightarrow>
          (case for_each (save_entity e sid) ents d of
             Inl d1 \<Rightarrow> Inl d1
           | Inr (u, d1) \<Rightarrow>
               (case syn_connections synthesis of
                  None \<Rightarrow> Inl d1
                | Some conns \<Rightarrow>
                    (case for_each (save_connection e sid) conns d1 of
                       Inl d2 \<Rightarrow> Inl d2
                     | Inr (u, d2) \<Rightarrow>
                         (case syn_impacts synthesis of
                            None \<Rightarrow> Inl d2
                          | Some impacts \<Rightarrow> save_impacts sid impacts d2)))))"

definition persist_story :: "env \<Rightarrow> cluster \<Rightarrow> synthesis_result \<Rightarrow> db \<Rightarrow> nat option \<times> db" where
  "persist_story e c synthesis d =
     (case insert_story (syn_title synthesis) (syn_summary synthesis) (syn_sections synthesis)
             (heroImage (articles c)) (Date_now e) d of
        Inl d1 \<Rightarrow> (None, d1)
      | Inr (None, d1) \<Rightarrow> (None, d1)
      | Inr (Some sid, d1) \<Rightarrow>
          (let articleLinks =
                 map (\<lambda>a. \<lparr>sa_story_id = sid, sa_article_id = id_a a,
                            sa_relevance_score = similarity c\<rparr>) (articles c)
           in case insert_story_articles articleLinks d1 of
                Inl d2 \<Rightarrow> (None, d2)
              | Inr (u, d2) \<Rightarrow>
                  (case save_story_parts e sid synthesis d2 of
                     Inl d3 \<Rightarrow> (None, d3)
                   | Inr (u, d3) \<Rightarrow> (Some sid, d3))))"

definition createStoryFromCluster :: "env \<Rightarrow> cluster \<Rightarrow> db \<Rightarrow> nat option \<times> db" where
  "createStoryFromCluster e c d =
     (if length (articles c) < 2 then (None, d)
      else case synthesizeArticles e (articles c) of
             Inl err \<Rightarrow> (None, d)
           | Inr synthesis \<Rightarrow> persist_story e c synthesis d)"

section \<open>The clustering job\<close>

definition row_cmp :: "env \<Rightarrow> article_row \<Rightarrow> article_row \<Rightarrow> jsnum" where
  "row_cmp e a b =
     (case (Date_getTime e (row_published_at b), Date_getTime e (row_published_at a)) of
        (Some tb, Some ta) \<Rightarrow> Num (real_of_int (tb - ta))
      | _ \<Rightarrow> NaN)"

definition to_article :: "article_row \<Rightarrow> article" where
  "to_article a =
     \<lparr>id_a = row_id a, title = row_title a,
      excerpt = (case row_excerpt a of None \<Rightarrow> [] | Some x \<Rightarrow> x),
      url = row_url a,
      source = (case row_source_name a of None \<Rightarrow> ''Unknown''
                | Some n \<Rightarrow> if n = [] then ''Unknown'' else n),
      published_at = row_published_at a,
      image_url = row_image_url a\<rparr>"

text \<open>
  The two queries of \<open>getUnassignedArticles\<close>: the articles published since the start of
  the window, newest first, at most 100; and the links of these articles to stories. An
  error of the first query gives the empty list; an error of the second leaves
  \<open>existingLinks\<close> \<open>null\<close>, and then no article counts as assigned.
\<close>

definition getUnassignedArticles :: "env \<Rightarrow> int \<Rightarrow> db \<Rightarrow> article list attempt" where
  "getUnassignedArticles e hoursBack d =
     (let since = Date_now e - hoursBack * 60 * 60 * 1000
      in case next_fault d of
           (Throws, d1) \<Rightarrow> Inl d1
         | (Fails, d1) \<Rightarrow> Inr ([], d1)
         | (Works, d1) \<Rightarrow>
             (let data = take 100 (array_sort (row_cmp e)
                           (filter (\<lambda>r. case Date_getTime e (row_published_at r) of
                                           None \<Rightarrow> False | Some t \<Rightarrow> since \<le> t)
                              (articles_table d1)));
                  articleIds = map row_id data
              in case next_fault d1 of
                   (Throws, d2) \<Rightarrow> Inl d2
                 | (f, d2) \<Rightarrow>
                     (let assignedIds =
                            (if f = Works
                             then set (map sa_article_id
                                    (filter (\<lambda>l. sa_article_id l \<in> set articleIds)
                                       (story_articles d2)))
                             else {})
                      in Inr (map to_article (filter (\<lambda>a. row_id a \<notin> assignedIds) data), d2))))"

record job_result =
  articlesProcessed :: nat
  storiesCreated :: nat
  clusters :: nat

text \<open>The loop of \<open>runClusteringJob\<close> over the valid clusters, with the count of stories.\<close>

fun create_stories :: "env \<Rightarrow> cluster list \<Rightarrow> nat \<times> db \<Rightarrow> nat \<times> db" where
  "create_stories e [] (n, d) = (n, d)"
| "create_stories e (c # cs) (n, d) =
     (case createStoryFromCluster e c d of
        (Some storyId, d1) \<Rightarrow> create_stories e cs (n + 1, d1)
      | (None, d1) \<Rightarrow> create_stories e cs (n, d1))"

definition runClusteringJob :: "env \<Rightarrow> db \<Rightarrow> job_result attempt" where
  "runClusteringJob e d =
     (case getUnassignedArticles e 48 d of
        Inl d1 \<Rightarrow> Inl d1
      | Inr (arts, d1) \<Rightarrow>
          if length arts < 2
          then Inr (\<lparr>articlesProcessed = 0, storiesCreated = 0, clusters = 0\<rparr>, d1)
          else
            (let cs = clusterArticles (Date_getTime e) arts (Num 0.35);
                 validClusters = filter (\<lambda>c. length (articles c) \<ge> 2) cs
             in case create_stories e validClusters (0, d1) of
                  (n, d2) \<Rightarrow>
                    Inr (\<lparr>articlesProcessed = length arts, storiesCreated = n,
                          clusters = length validClusters\<rparr>, d2)))"

section \<open>The scheduler\<close>

text \<open>
  \<open>jobStatus\<close> keeps, for each job, the time of the last run, the running flag and the
  last result: what the job body returned, or the text of the error it raised.
\<close>

record 'r job =
  lastRun :: "int option"
  isRunning :: bool
  lastResult :: "(string + 'r) option"

text \<open>
  A wrapper (\<open>runIngestionJob\<close>, \<open>runClusteringJobWrapper\<close>) runs in two pieces, between
  which other callbacks of the event loop may run: from the call to the \<open>await\<close> of the job
  body, and from the settling of that \<open>await\<close> to the end. The timers of
  \<open>initializeScheduler\<close> and the exported \<open>triggerIngestion\<close> and \<open>triggerClustering\<close> call
  the wrappers. Three counters that the source does not have stand beside the job to
  observe it: how often the body was started, how many bodies started by the wrapper have
  not settled yet, and how many bodies started without the wrapper have not settled yet.
\<close>

record 'r guarded =
  job :: "'r job"
  started :: nat
  in_flight :: nat
  direct_in_flight :: nat

text \<open>The first piece: return at once when the flag is set; otherwise set it, note the
  time and start the body.\<close>

definition trigger :: "int \<Rightarrow> 'r guarded \<Rightarrow> 'r guarded" where
  "trigger now g =
     (if isRunning (job g) then g
      else g\<lparr>job := (job g)\<lparr>isRunning := True, lastRun := Some now\<rparr>,
             started := started g + 1,
             in_flight := in_flight g + 1\<rparr>)"

text \<open>The second piece, for a body in flight: the \<open>try\<close> block stores the result, the
  \<open>catch\<close> block stores the error, and \<open>finally\<close> clears the flag.\<close>

definition settle :: "string + 'r \<Rightarrow> 'r guarded \<Rightarrow> 'r guarded" where
  "settle outcome g =
     (if in_flight g = 0 then g
      else
        let j = (case outcome of
                   Inr result \<Rightarrow> (job g)\<lparr>lastResult := Some (Inr result)\<rparr>
                 | Inl err \<Rightarrow> (job g)\<lparr>lastResult := Some (Inl err)\<rparr>)
        in g\<lparr>job := j\<lparr>isRunning := False\<rparr>, in_flight := in_flight g - 1\<rparr>)"

text \<open>
  The handler of \<open>POST /api/stories/cluster\<close> (\<open>routes/stories.ts\<close>) is a third way to
  start the clustering job. It awaits \<open>runClusteringJob()\<close> itself, not the wrapper: it
  neither reads nor writes \<open>jobStatus\<close>. Its first piece starts the body whatever the flag
  says; its second piece, for a body that it started, sends the reply (the result, or
  status 500 with the message of the error) and leaves \<open>jobStatus\<close> as it is.
\<close>

definition post_stories_cluster :: "'r guarded \<Rightarrow> 'r guarded" where
  "post_stories_cluster g =
     g\<lparr>started := started g + 1, direct_in_flight := direct_in_flight g + 1\<rparr>"

definition post_stories_cluster_reply :: "string + 'r \<Rightarrow> 'r guarded \<Rightarrow> 'r guarded" where
  "post_stories_cluster_reply outcome g =
     (if direct_in_flight g = 0 then g
      else g\<lparr>direct_in_flight := direct_in_flight g - 1\<rparr>)"

datatype job_type = Ingestion | Clustering

record 'r jobStatus =
  ingestion :: "'r guarded"
  clustering :: "'r guarded"

definition idle :: "'r guarded" where
  "idle = \<lparr>job = \<lparr>lastRun = None, isRunning = False, lastResult = None\<rparr>,
           started = 0, in_flight = 0, direct_in_flight = 0\<rparr>"

definition initial_jobStatus :: "'r jobStatus" where
  "initial_jobStatus = \<lparr>ingestion = idle, clustering = idle\<rparr>"

text \<open>What happens to the scheduler: a wrapper is called (by a timer or by
  \<open>triggerIngestion\<close> or \<open>triggerClustering\<close>) at a time, the body that a wrapper started
  settles, a request to \<open>POST /api/stories/cluster\<close> arrives, or the body that such a
  request started settles.\<close>

datatype 'r event =
    Trigger job_type int
  | Settle job_type "string + 'r"
  | Post_stories_cluster
  | Post_stories_cluster_reply "string + 'r"

fun step :: "'r jobStatus \<Rightarrow> 'r event \<Rightarrow> 'r jobStatus" where
  "step s (Trigger Ingestion now) = s\<lparr>ingestion := trigger now (ingestion s)\<rparr>"
| "step s (Trigger Clustering now) = s\<lparr>clustering := trigger now (clustering s)\<rparr>"
| "step s (Settle Ingestion outcome) = s\<lparr>ingestion := settle outcome (ingestion s)\<rparr>"
| "step s (Settle Clustering outcome) = s\<lparr>clustering := settle outcome (clustering s)\<rparr>"
| "step s Post_stories_cluster = s\<lparr>clustering := post_stories_cluster (clustering s)\<rparr>"
| "step s (Post_stories_cluster_reply outcome) =
     s\<lparr>clustering := post_stories_cluster_reply outcome (clustering s)\<rparr>"

definition run :: "'r jobStatus \<Rightarrow> 'r event list \<Rightarrow> 'r jobStatus" where
  "run s evs = foldl step s evs"

fun guard_of :: "job_type \<Rightarrow> 'r jobStatus \<Rightarrow> 'r guarded" where
  "guard_of Ingestion s = ingestion s"
| "guard_of Clustering s = clustering s"

text \<open>The event is the settling of a body that the wrapper of the job started.\<close>

fun settles :: "job_type \<Rightarrow> 'r event \<Rightarrow> bool" where
  "settles jt (Settle jt' outcome) = (jt = jt')"
| "settles jt ev = False"

text \<open>The event starts the body of the job without its wrapper.\<close>

fun bypasses :: "job_type \<Rightarrow> 'r event \<Rightarrow> bool" where
  "bypasses jt Post_stories_cluster = (jt = Clustering)"
| "bypasses jt ev = False"

section \<open>Notions used to state the properties\<close>




text \<open>Article \<open>a\<close> was published no earlier than article \<open>b\<close>, both dates being dates.\<close>

definition newer_or_equal :: "(string \<Rightarrow> int option) \<Rightarrow> article \<Rightarrow> article \<Rightarrow> bool" where
  "newer_or_equal getTime a b =
     (case (getTime (published_at a), getTime (published_at b)) of
        (Some ta, Some tb) \<Rightarrow> tb \<le> ta
      | _ \<Rightarrow> False)"

text \<open>
  The state of the outer loop: the assigned ids are the ids of the members of the clusters
  so far, no id occurs twice among them, and every cluster is a non-empty subsequence of
  the sorted list.
\<close>

definition clusters_ok :: "article list \<Rightarrow> cluster list \<Rightarrow> string set \<Rightarrow> bool" where
  "clusters_ok S cs asg \<longleftrightarrow>
     asg = id_a ` set (concat (map articles cs)) \<and>
     distinct (map id_a (concat (map articles cs))) \<and>
     (\<forall>c\<in>set cs. articles c \<noteq> [] \<and> subseq (articles c) S)"

text \<open>The store that an attempt ends with, raised or not.\<close>

definition final_db :: "'a attempt \<Rightarrow> db" where
  "final_db r = (case r of Inl d \<Rightarrow> d | Inr (v, d) \<Rightarrow> d)"

text \<open>The key of a row of \<open>entity_connections\<close>.\<close>

definition triple :: "connection_row \<Rightarrow> nat \<times> nat \<times> string" where
  "triple r = (ec_source_entity_id r, ec_target_entity_id r, ec_relationship_type r)"

text \<open>
  The guard of a job is intact: at most one body is in flight, and the flag is set exactly
  while one is.
\<close>

definition guard_ok :: "'r guarded \<Rightarrow> bool" where
  "guard_ok g \<longleftrightarrow> in_flight g \<le> 1 \<and> (isRunning (job g) = (in_flight g = 1))"

text \<open>The bodies of a job in flight, whoever started them.\<close>

definition bodies_in_flight :: "'r guarded \<Rightarrow> nat" where
  "bodies_in_flight g = in_flight g + direct_in_flight g"

text \<open>Sample data: two reports of one event and the time values of their dates.\<close>

definition sample_new :: article where
  "sample_new = \<lparr>id_a = ''1'', title = ''Fed raises rates'', excerpt = ''Markets react'',
     url = ''https://ap.example/fed'', source = ''AP'', published_at = ''2026-01-18T12:00:00Z'', image_url = None\<rparr>"

definition sample_old :: article where
  "sample_old = \<lparr>id_a = ''2'', title = ''Fed raises rates'', excerpt = ''Markets react'',
     url = ''https://bbc.example/fed'', source = ''BBC'', published_at = ''2026-01-18T08:00:00Z'', image_url = None\<rparr>"

definition sample_getTime :: "string \<Rightarrow> int option" where
  "sample_getTime s =
     (if s = ''2026-01-18T12:00:00Z'' then Some 1768737600000
      else if s = ''2026-01-18T08:00:00Z'' then Some 1768723200000
      else None)"

text \<open>A different article under the id of \<open>sample_new\<close>, and an article whose date is
  no date.\<close>

definition sample_dup :: article where
  "sample_dup = \<lparr>id_a = ''1'', title = ''Senate passes budget'', excerpt = ''Vote was close'',
     url = ''https://bbc.example/senate'', source = ''BBC'',
     published_at = ''2026-01-18T08:00:00Z'', image_url = None\<rparr>"

definition sample_undated :: article where
  "sample_undated = \<lparr>id_a = ''3'', title = ''Fed raises rates'', excerpt = ''Markets react'',
     url = ''https://cnn.example/fed'', source = ''CNN'', published_at = ''yesterday'',
     image_url = None\<rparr>"

text \<open>A second reading of dates, which agrees with \<open>sample_getTime\<close> on the sample dates.\<close>

definition sample_getTime2 :: "string \<Rightarrow> int option" where
  "sample_getTime2 s = (if s = ''1970-01-01T00:00:00Z'' then Some 0 else sample_getTime s)"

text \<open>The cluster of the two reports; a runtime whose synthesis service rejects every
  call; a reply of the service, in a code fence, that has no \<open>impacts\<close>, and its parse; a
  store holding the two reports; a store holding two entities, and three connections.\<close>

definition sample_cluster :: cluster where
  "sample_cluster = \<lparr>articles = [sample_new, sample_old], similarity = Num 1\<rparr>"

definition sample_env :: env where
  "sample_env = \<lparr>Date_getTime = sample_getTime, Date_now = 1768741200000,
     groq_create = (\<lambda>arts. Rejected), JSON_parse = (\<lambda>s. None),
     ilike = (\<lambda>pattern v. toLowerCase pattern = toLowerCase v)\<rparr>"

definition sample_json :: string where
  \<open>sample_json = ''{"title": "Fed lifts rates again", "summary": "The Federal Reserve raised rates.", "sections": [{"title": "Summary", "content": "Rates went up [AP].", "citations": [{"source": "AP", "article_index": 0}]}], "entities": [{"name": "Federal Reserve", "type": "company", "role": "primary", "context": "Raised rates"}], "connections": []}''\<close>

definition sample_reply :: string where
  "sample_reply = ''```json'' @ [CHR 0x0A] @ sample_json @ [CHR 0x0A] @ ''```''"

definition sample_payload :: payload where
  "sample_payload = \<lparr>pay_title = ''Fed lifts rates again'',
     pay_summary = ''The Federal Reserve raised rates.'',
     pay_sections = Some [\<lparr>raw_title = ''Summary'', raw_content = ''Rates went up [AP].'',
        raw_citations = Some [\<lparr>raw_source = ''AP'', raw_article_index = Some 0\<rparr>]\<rparr>],
     pay_entities = Some [\<lparr>ent_name = ''Federal Reserve'', ent_type = ''company'',
        ent_role = ''primary'', ent_context = ''Raised rates''\<rparr>],
     pay_connections = Some [],
     pay_impacts = None\<rparr>"

definition sample_env_no_impacts :: env where
  "sample_env_no_impacts = sample_env
     \<lparr>groq_create := (\<lambda>arts. Reply (Some sample_reply)),
      JSON_parse := (\<lambda>s. if s = sample_json then Some sample_payload else None)\<rparr>"

definition empty_db :: db where
  "empty_db = \<lparr>articles_table = [], stories = [], story_articles = [], entities = [],
     story_entities = [], entity_connections = [], story_impacts = [], next_id = 1,
     faults = []\<rparr>"

definition sample_db :: db where
  "sample_db = empty_db\<lparr>articles_table :=
     [\<lparr>row_id = ''2'', row_title = ''Fed raises rates'', row_excerpt = Some ''Markets react'',
       row_url = ''https://bbc.example/fed'', row_published_at = ''2026-01-18T08:00:00Z'',
       row_image_url = None, row_source_name = Some ''BBC''\<rparr>,
      \<lparr>row_id = ''1'', row_title = ''Fed raises rates'', row_excerpt = Some ''Markets react'',
       row_url = ''https://ap.example/fed'', row_published_at = ''2026-01-18T12:00:00Z'',
       row_image_url = None, row_source_name = Some ''AP''\<rparr>]\<rparr>"

definition sample_graph_db :: db where
  "sample_graph_db = empty_db
     \<lparr>entities := [\<lparr>entity_id = 1, entity_name = ''Federal Reserve'', entity_type = ''company''\<rparr>,
                    \<lparr>entity_id = 2, entity_name = ''Jerome Powell'', entity_type = ''person''\<rparr>],
      next_id := 3\<rparr>"

definition sample_conn1 :: entity_connection where
  "sample_conn1 = \<lparr>conn_source = ''jerome powell'', conn_target = ''Federal Reserve'',
     conn_relationship = ''works_for'', conn_evidence = ''Chair of the Fed'',
     conn_strength = 0.8\<rparr>"

definition sample_conn2 :: entity_connection where
  "sample_conn2 = \<lparr>conn_source = ''jerome powell'', conn_target = ''Federal Reserve'',
     conn_relationship = ''works_for'', conn_evidence = ''Announced the decision'',
     conn_strength = 0.9\<rparr>"

definition sample_conn3 :: entity_connection where
  "sample_conn3 = \<lparr>conn_source = ''Janet Yellen'', conn_target = ''Federal Reserve'',
     conn_relationship = ''advises'', conn_evidence = ''Former chair'',
     conn_strength = 0.4\<rparr>"

text \<open>Two articles whose text holds stop words and short words only.\<close>

definition sample_stop1 :: article where
  "sample_stop1 = \<lparr>id_a = ''8'', title = ''Now or then'', excerpt = '''',
     url = ''https://ap.example/now'', source = ''AP'',
     published_at = ''2026-01-18T12:00:00Z'', image_url = None\<rparr>"

definition sample_stop2 :: article where
  "sample_stop2 = \<lparr>id_a = ''9'', title = ''Up and down'', excerpt = '''',
     url = ''https://bbc.example/up'', source = ''BBC'',
     published_at = ''2026-01-18T08:00:00Z'', image_url = None\<rparr>"

section \<open>Properties\<close>

subsection \<open>Evaluation on the sample data\<close>

lemmas tokenize_defs = tokenize_def toLowerCase_def toLowerCase_char_def replace_punct_def
  is_word_char_def is_space_char_def stopWords_def

lemmas similarity_defs = calculateSimilarity_def article_text_def jaccardSimilarity_def
  cosineSimilarity_def new_Set_def freq_of_def freq_set_def freq_get_def

lemma sample_similarity: "calculateSimilarity sample_new sample_old = Num 1"
  by (simp add: similarity_defs tokenize_defs sample_new_def sample_old_def)

lemma sample_sort:
  "array_sort (recency_cmp sample_getTime) [sample_old, sample_new] = [sample_new, sample_old]"
  by (simp add: array_sort_def recency_cmp_def sample_getTime_def sample_new_def sample_old_def)

lemma sample_clusters:
  "clusterArticles sample_getTime [sample_old, sample_new] (Num 0.35)
     = [\<lparr>articles = [sample_new, sample_old], similarity = Num 1\<rparr>]"
proof -
  have ids: "id_a sample_new = ''1''" "id_a sample_old = ''2''"
    by (simp_all add: sample_new_def sample_old_def)
  show ?thesis
    by (simp add: clusterArticles_def sample_sort avgSimilarity_def sample_similarity ids)
qed

subsection \<open>Numbers and token sets\<close>

lemma set_new_Set [simp]: "set (new_Set xs) = set xs"
  by (simp add: new_Set_def)

lemma distinct_new_Set [simp]: "distinct (new_Set xs)"
  by (simp add: new_Set_def)

lemma length_new_Set: "length (new_Set xs) = card (set xs)"
  using distinct_card [of "new_Set xs"] by simp

lemma new_Set_Nil_iff [simp]: "new_Set xs = [] \<longleftrightarrow> xs = []"
  by (metis set_new_Set set_empty)










subsection \<open>Admission to a cluster\<close>









subsection \<open>The recency sort\<close>

lemma set_sort_insert [simp]: "set (sort_insert cmp x ys) = insert x (set ys)"
  by (induction ys) auto

lemma mset_sort_insert [simp]: "mset (sort_insert cmp x ys) = add_mset x (mset ys)"
  by (induction ys) auto

lemma mset_array_sort [simp]: "mset (array_sort cmp xs) = mset xs"
  by (induction xs) (simp_all add: array_sort_def)

lemma set_array_sort [simp]: "set (array_sort cmp xs) = set xs"
  using mset_array_sort [of cmp xs] by (metis set_mset_mset)

lemma sort_insert_cong:
  "\<forall>y\<in>set ys. c1 x y = c2 x y \<Longrightarrow> sort_insert c1 x ys = sort_insert c2 x ys"
  by (induction ys) auto

lemma array_sort_cong:
  "\<forall>x\<in>set xs. \<forall>y\<in>set xs. c1 x y = c2 x y \<Longrightarrow> array_sort c1 xs = array_sort c2 xs"
proof (induction xs)
  case Nil
  then show ?case by (simp add: array_sort_def)
next
  case (Cons x xs)
  then have ih: "array_sort c1 xs = array_sort c2 xs" by simp
  have "sort_insert c1 x (array_sort c2 xs) = sort_insert c2 x (array_sort c2 xs)"
    by (rule sort_insert_cong) (use Cons.prems in simp)
  then show ?case using ih by (simp add: array_sort_def)
qed

lemma sorted_wrt_sort_insert:
  assumes tot: "\<And>y. y \<in> set ys \<Longrightarrow> cmp_positive (cmp x y) \<longleftrightarrow> \<not> R x y"
    and lin: "\<And>y. y \<in> set ys \<Longrightarrow> R x y \<or> R y x"
    and trans: "\<And>y z. y \<in> set ys \<Longrightarrow> z \<in> set ys \<Longrightarrow> R x y \<Longrightarrow> R y z \<Longrightarrow> R x z"
    and srt: "sorted_wrt R ys"
  shows "sorted_wrt R (sort_insert cmp x ys)"
  using assms
proof (induction ys)
  case Nil
  then show ?case by simp
next
  case (Cons y ys)
  show ?case
  proof (cases "cmp_positive (cmp x y)")
    case True
    then have "\<not> R x y" using Cons.prems(1) by simp
    then have "R y x" using Cons.prems(2) [of y] by simp
    moreover have "sorted_wrt R (sort_insert cmp x ys)"
      using Cons.prems by (intro Cons.IH) auto
    ultimately show ?thesis using True Cons.prems(4) by auto
  next
    case False
    then have xy: "R x y" using Cons.prems(1) by simp
    have "\<forall>z\<in>set ys. R x z"
      using Cons.prems(3) [of y] xy Cons.prems(4) by auto
    then show ?thesis using False xy Cons.prems(4) by simp
  qed
qed

lemma recency_cmp_valid:
  "getTime (published_at a) \<noteq> None \<Longrightarrow> getTime (published_at b) \<noteq> None
     \<Longrightarrow> cmp_positive (recency_cmp getTime a b) \<longleftrightarrow> \<not> newer_or_equal getTime a b"
  by (auto simp: recency_cmp_def newer_or_equal_def)

lemma sorted_array_sort:
  assumes "\<forall>a\<in>set xs. getTime (published_at a) \<noteq> None"
  shows "sorted_wrt (newer_or_equal getTime) (array_sort (recency_cmp getTime) xs)"
  using assms
proof (induction xs)
  case Nil
  then show ?case by (simp add: array_sort_def)
next
  case (Cons x xs)
  let ?ys = "array_sort (recency_cmp getTime) xs"
  have valid: "\<forall>a\<in>set ?ys. getTime (published_at a) \<noteq> None" using Cons.prems by simp
  have vx: "getTime (published_at x) \<noteq> None" using Cons.prems by simp
  have "sorted_wrt (newer_or_equal getTime) (sort_insert (recency_cmp getTime) x ?ys)"
  proof (rule sorted_wrt_sort_insert)
    fix y assume "y \<in> set ?ys"
    then show "cmp_positive (recency_cmp getTime x y) \<longleftrightarrow> \<not> newer_or_equal getTime x y"
      using recency_cmp_valid vx valid by blast
  next
    fix y assume "y \<in> set ?ys"
    then show "newer_or_equal getTime x y \<or> newer_or_equal getTime y x"
      using vx valid by (auto simp: newer_or_equal_def)
  next
    fix y z assume "newer_or_equal getTime x y" "newer_or_equal getTime y z"
    then show "newer_or_equal getTime x z"
      by (auto simp: newer_or_equal_def split: option.splits)
  next
    show "sorted_wrt (newer_or_equal getTime) ?ys" using Cons by simp
  qed
  then show ?case by (simp add: array_sort_def)
qed

lemma subseq_set_subset: "subseq xs ys \<Longrightarrow> set xs \<subseteq> set ys"
  by (induction xs ys rule: list_emb.induct) auto

lemma sorted_wrt_subseq:
  "subseq xs ys \<Longrightarrow> sorted_wrt R ys \<Longrightarrow> sorted_wrt R xs"
proof (induction xs ys rule: list_emb.induct)
  case (list_emb_Nil ys)
  then show ?case by simp
next
  case (list_emb_Cons xs ys y)
  then show ?case by simp
next
  case (list_emb_Cons2 x y xs ys)
  then have "set xs \<subseteq> set ys" by (simp add: subseq_set_subset)
  then show ?case using list_emb_Cons2 by auto
qed

subsection \<open>The two loops\<close>

lemma grow_skip:
  "id_a ` set P \<subseteq> asg \<Longrightarrow> grow th (P @ R) (c, asg) = grow th R (c, asg)"
  by (induction P) simp_all

lemma grow_spec:
  "grow th xs (c, asg) = (c', asg') \<Longrightarrow>
   \<exists>added. articles c' = articles c @ added \<and> asg' = asg \<union> id_a ` set added
      \<and> subseq added xs \<and> distinct (map id_a added) \<and> id_a ` set added \<inter> asg = {}"
proof (induction xs arbitrary: c asg)
  case Nil
  then show ?case by simp
next
  case (Cons x xs)
  show ?case
  proof (cases "id_a x \<notin> asg \<and> js_ge (avgSimilarity (articles c) x) th")
    case True
    let ?c2 = "c\<lparr>articles := articles c @ [x],
                   similarity := Math_min (similarity c) (avgSimilarity (articles c) x)\<rparr>"
    have "grow th xs (?c2, insert (id_a x) asg) = (c', asg')"
      using Cons.prems True by (simp add: Let_def)
    from Cons.IH [OF this] obtain added where
      a: "articles c' = articles ?c2 @ added" "asg' = insert (id_a x) asg \<union> id_a ` set added"
         "subseq added xs" "distinct (map id_a added)"
         "id_a ` set added \<inter> insert (id_a x) asg = {}"
      by blast
    have "articles c' = articles c @ (x # added)" using a(1) by simp
    moreover have "asg' = asg \<union> id_a ` set (x # added)" using a(2) by auto
    moreover have "subseq (x # added) (x # xs)" using a(3) by simp
    moreover have "distinct (map id_a (x # added))" using a(4,5) by auto
    moreover have "id_a ` set (x # added) \<inter> asg = {}" using a(5) True by auto
    ultimately show ?thesis by blast
  next
    case False
    then have "grow th xs (c, asg) = (c', asg')"
      using Cons.prems by (auto simp: Let_def split: if_splits)
    from Cons.IH [OF this] obtain added where
      a: "articles c' = articles c @ added" "asg' = asg \<union> id_a ` set added"
         "subseq added xs" "distinct (map id_a added)" "id_a ` set added \<inter> asg = {}"
      by blast
    have "subseq added (x # xs)" using a(3) by (rule list_emb_Cons)
    then show ?thesis using a by blast
  qed
qed

lemma seed_loop_spec:
  assumes "seed_loop th S xs (cs, asg) = (cs', asg')"
    and "S = P @ xs"
    and "id_a ` set P \<subseteq> asg"
    and "clusters_ok S cs asg"
  shows "clusters_ok S cs' asg' \<and> id_a ` set S \<subseteq> asg'"
  using assms
proof (induction xs arbitrary: P cs asg)
  case Nil
  then show ?case by simp
next
  case (Cons x xs)
  have S: "S = (P @ [x]) @ xs" using Cons.prems(2) by simp
  show ?case
  proof (cases "id_a x \<in> asg")
    case True
    have "seed_loop th S xs (cs, asg) = (cs', asg')" using Cons.prems(1) True by simp
    moreover have "id_a ` set (P @ [x]) \<subseteq> asg" using Cons.prems(3) True by simp
    ultimately show ?thesis using Cons.IH [OF _ S _ Cons.prems(4)] by blast
  next
    case False
    let ?seed = "\<lparr>articles = [x], similarity = Num 1\<rparr>"
    obtain c a2 where g: "grow th S (?seed, insert (id_a x) asg) = (c, a2)"
      by (cases "grow th S (?seed, insert (id_a x) asg)")
    have "grow th S (?seed, insert (id_a x) asg) = grow th xs (?seed, insert (id_a x) asg)"
      unfolding S by (rule grow_skip) (use Cons.prems(3) in auto)
    then have "grow th xs (?seed, insert (id_a x) asg) = (c, a2)" using g by simp
    from grow_spec [OF this] obtain added where
      a: "articles c = [x] @ added" "a2 = insert (id_a x) asg \<union> id_a ` set added"
         "subseq added xs" "distinct (map id_a added)"
         "id_a ` set added \<inter> insert (id_a x) asg = {}"
      by auto
    have next_run: "seed_loop th S xs (cs @ [c], a2) = (cs', asg')"
      using Cons.prems(1) False g by simp
    have old: "asg = id_a ` set (concat (map articles cs))"
      "distinct (map id_a (concat (map articles cs)))"
      "\<forall>c\<in>set cs. articles c \<noteq> [] \<and> subseq (articles c) S"
      using Cons.prems(4) by (simp_all add: clusters_ok_def)
    have "subseq (x # added) (x # xs)" using a(3) by simp
    then have sub: "subseq (articles c) S"
      unfolding Cons.prems(2) a(1) by (simp add: subseq_drop_many)
    have ids: "a2 = id_a ` set (concat (map articles (cs @ [c])))"
      using a(1,2) old(1) by auto
    have "asg \<inter> id_a ` set (x # added) = {}"
      using a(5) False by auto
    then have disj: "id_a ` set (concat (map articles cs)) \<inter> id_a ` set (x # added) = {}"
      unfolding old(1) .
    have "distinct (map id_a (x # added))" using a(4,5) by auto
    then have "distinct (map id_a (concat (map articles cs)) @ map id_a (x # added))"
      using old(2) disj by (simp only: distinct_append set_map)
    then have dist: "distinct (map id_a (concat (map articles (cs @ [c]))))"
      using a(1) by simp
    have ok: "clusters_ok S (cs @ [c]) a2"
      unfolding clusters_ok_def using ids dist sub old(3) a(1) by auto
    have "id_a ` set (P @ [x]) \<subseteq> a2" using Cons.prems(3) a(2) by auto
    then show ?thesis using Cons.IH [OF next_run S _ ok] by blast
  qed
qed

lemma clusterArticles_spec:
  "\<exists>asg. clusters_ok (array_sort (recency_cmp getTime) arts) (clusterArticles getTime arts th) asg
      \<and> id_a ` set arts \<subseteq> asg"
proof -
  let ?S = "array_sort (recency_cmp getTime) arts"
  obtain cs asg where run: "seed_loop th ?S ?S ([], {}) = (cs, asg)"
    by (cases "seed_loop th ?S ?S ([], {})")
  have "clusters_ok ?S [] {}" by (simp add: clusters_ok_def)
  from seed_loop_spec [OF run _ _ this, of "[]"]
  have "clusters_ok ?S cs asg \<and> id_a ` set ?S \<subseteq> asg" by simp
  then show ?thesis using run by (auto simp: clusterArticles_def)
qed

text \<open>
  Claim C2, amended. For every input article list whose ids are pairwise distinct, the
  clusters returned by \<open>clusterArticles\<close> form a partition of the input: the members of
  all clusters together are the input articles, each exactly once. For every input, every
  returned cluster has at least one member.
\<close>

theorem clusterArticles_partition:
  "(distinct (map id_a arts) \<longrightarrow>
      mset (concat (map articles (clusterArticles getTime arts th))) = mset arts
      \<and> distinct (concat (map articles (clusterArticles getTime arts th))))
   \<and> (\<forall>c\<in>set (clusterArticles getTime arts th). articles c \<noteq> [])"
proof -
  let ?S = "array_sort (recency_cmp getTime) arts"
  let ?cs = "clusterArticles getTime arts th"
  let ?all = "concat (map articles ?cs)"
  obtain asg where ok: "clusters_ok ?S ?cs asg" and cover: "id_a ` set arts \<subseteq> asg"
    using clusterArticles_spec by blast
  have ids: "asg = id_a ` set ?all" and dist: "distinct (map id_a ?all)"
    and each: "\<forall>c\<in>set ?cs. articles c \<noteq> [] \<and> subseq (articles c) ?S"
    using ok by (simp_all add: clusters_ok_def)
  have sub: "set ?all \<subseteq> set arts"
  proof
    fix a assume "a \<in> set ?all"
    then obtain c where "c \<in> set ?cs" "a \<in> set (articles c)" by auto
    then have "a \<in> set ?S" using each subseq_set_subset by blast
    then show "a \<in> set arts" by simp
  qed
  have d1: "distinct ?all" using dist by (simp only: distinct_map)
  have part: "mset ?all = mset arts" if ids_distinct: "distinct (map id_a arts)"
  proof -
    have inj: "inj_on id_a (set arts)" using ids_distinct by (simp add: distinct_map)
    have "set arts \<subseteq> set ?all"
    proof
      fix a assume a: "a \<in> set arts"
      then have "id_a a \<in> id_a ` set ?all" using cover ids by blast
      then obtain b where b: "b \<in> set ?all" "id_a b = id_a a"
        unfolding image_iff by metis
      then have "b \<in> set arts" using sub by blast
      then have "a = b" using inj a b(2) by (simp add: inj_on_def)
      then show "a \<in> set ?all" using b(1) by simp
    qed
    then have eq: "set ?all = set arts" using sub by blast
    have d2: "distinct arts" using ids_distinct by (simp only: distinct_map)
    show ?thesis using set_eq_iff_mset_eq_distinct [OF d1 d2] eq by blast
  qed
  have nonempty: "\<forall>c\<in>set ?cs. articles c \<noteq> []" using each by blast
  show ?thesis using part d1 nonempty by blast
qed

theorem clusterArticles_partition_witness:
  "distinct (map id_a [sample_old, sample_new])
   \<and> mset (concat (map articles (clusterArticles sample_getTime [sample_old, sample_new] (Num 0.35))))
       = mset [sample_old, sample_new]
   \<and> distinct (concat (map articles (clusterArticles sample_getTime [sample_old, sample_new] (Num 0.35))))
   \<and> list_all (\<lambda>c. articles c \<noteq> [])
         (clusterArticles sample_getTime [sample_old, sample_new] (Num 0.35))"
proof -
  have d: "distinct (map id_a [sample_old, sample_new])"
    by (simp add: sample_new_def sample_old_def)
  note th = clusterArticles_partition [of "[sample_old, sample_new]" sample_getTime "Num 0.35"]
  have a: "mset (concat (map articles (clusterArticles sample_getTime [sample_old, sample_new] (Num 0.35))))
       = mset [sample_old, sample_new]
     \<and> distinct (concat (map articles (clusterArticles sample_getTime [sample_old, sample_new] (Num 0.35))))"
    using th [THEN conjunct1, THEN mp, OF d] .
  have b: "list_all (\<lambda>c. articles c \<noteq> [])
         (clusterArticles sample_getTime [sample_old, sample_new] (Num 0.35))"
    unfolding list_all_iff using th [THEN conjunct2] .
  show ?thesis using d a b by (intro conjI) (elim conjE, assumption)+
qed

text \<open>
  Claim C2 as stated fails where two input articles share an id: the second one is taken
  for assigned and appears in no cluster.
\<close>

theorem clusterArticles_partition_counterexample:
  "sample_dup \<notin> set (concat (map articles
      (clusterArticles sample_getTime [sample_new, sample_dup] (Num 0.35))))"
proof -
  have srt: "array_sort (recency_cmp sample_getTime) [sample_new, sample_dup]
      = [sample_new, sample_dup]"
    by (simp add: array_sort_def recency_cmp_def sample_getTime_def sample_new_def sample_dup_def)
  have ids: "id_a sample_new = ''1''" "id_a sample_dup = ''1''"
    by (simp_all add: sample_new_def sample_dup_def)
  have "clusterArticles sample_getTime [sample_new, sample_dup] (Num 0.35)
      = [\<lparr>articles = [sample_new], similarity = Num 1\<rparr>]"
    by (simp add: clusterArticles_def srt ids)
  then show ?thesis
    by (simp add: sample_new_def sample_dup_def)
qed

text \<open>
  Claim C10, amended. When the \<open>published_at\<close> of every input article is a date, in every
  cluster returned by \<open>clusterArticles\<close> the members appear in descending \<open>published_at\<close>
  order, so that the first member is the most recent article of the cluster. The first
  member is the article whose title and excerpt the basic synthesis of the \<open>catch\<close> block
  uses, and its image, when it has one, is the hero image.
\<close>

theorem clusterArticles_recency_order:
  assumes "\<forall>a\<in>set arts. getTime (published_at a) \<noteq> None"
    and "c \<in> set (clusterArticles getTime arts th)"
  shows "sorted_wrt (newer_or_equal getTime) (articles c)
       \<and> (\<forall>b\<in>set (articles c). newer_or_equal getTime (hd (articles c)) b)
       \<and> syn_title (fallback_synthesis (articles c)) = title (hd (articles c))
       \<and> syn_summary (fallback_synthesis (articles c)) = excerpt (hd (articles c))
       \<and> heroImage (articles c) =
           (if image_url (hd (articles c)) \<noteq> None \<and> image_url (hd (articles c)) \<noteq> Some []
            then image_url (hd (articles c)) else heroImage (tl (articles c)))"
proof -
  let ?S = "array_sort (recency_cmp getTime) arts"
  obtain asg where ok: "clusters_ok ?S (clusterArticles getTime arts th) asg"
    using clusterArticles_spec by blast
  then have ne: "articles c \<noteq> []" and sub: "subseq (articles c) ?S"
    using assms(2) by (simp_all add: clusters_ok_def)
  have srt: "sorted_wrt (newer_or_equal getTime) (articles c)"
    using sorted_wrt_subseq [OF sub sorted_array_sort [OF assms(1)]] .
  obtain x xs where xs: "articles c = x # xs" using ne by (cases "articles c") auto
  have "x \<in> set ?S" using subseq_set_subset [OF sub] xs by auto
  then have "getTime (published_at x) \<noteq> None" using assms(1) by simp
  then have "newer_or_equal getTime x x" by (auto simp: newer_or_equal_def)
  then have first: "\<forall>b\<in>set (articles c). newer_or_equal getTime (hd (articles c)) b"
    using srt xs by auto
  have fb: "syn_title (fallback_synthesis (articles c)) = title (hd (articles c))"
    "syn_summary (fallback_synthesis (articles c)) = excerpt (hd (articles c))"
    unfolding xs by (simp_all add: fallback_synthesis_def)
  have hero: "heroImage (articles c) =
           (if image_url (hd (articles c)) \<noteq> None \<and> image_url (hd (articles c)) \<noteq> Some []
            then image_url (hd (articles c)) else heroImage (tl (articles c)))"
    unfolding xs by (simp add: heroImage_def)
  show ?thesis using srt first fb hero by (intro conjI)
qed

theorem clusterArticles_recency_order_witness:
  "list_all (\<lambda>a. sample_getTime (published_at a) \<noteq> None) [sample_old, sample_new]
   \<and> \<lparr>articles = [sample_new, sample_old], similarity = Num 1\<rparr>
        \<in> set (clusterArticles sample_getTime [sample_old, sample_new] (Num 0.35))
   \<and> sorted_wrt (newer_or_equal sample_getTime) [sample_new, sample_old]
   \<and> list_all (newer_or_equal sample_getTime sample_new) [sample_new, sample_old]"
proof -
  have v: "\<forall>a\<in>set [sample_old, sample_new]. sample_getTime (published_at a) \<noteq> None"
    by (simp add: sample_getTime_def sample_new_def sample_old_def)
  have m: "\<lparr>articles = [sample_new, sample_old], similarity = Num 1\<rparr>
      \<in> set (clusterArticles sample_getTime [sample_old, sample_new] (Num 0.35))"
    unfolding sample_clusters by simp
  show ?thesis
    using v m clusterArticles_recency_order [OF v m] by simp
qed

text \<open>
  Claim C10 as stated fails where a \<open>published_at\<close> is no date: its comparisons are
  \<open>NaN\<close>, the sort leaves the three articles as they came, and the cluster starts with the
  older of the two dated articles.
\<close>

theorem clusterArticles_recency_order_counterexample:
  "clusterArticles sample_getTime [sample_old, sample_undated, sample_new] (Num 0.35)
     = [\<lparr>articles = [sample_old, sample_undated, sample_new], similarity = Num 1\<rparr>]
   \<and> \<not> newer_or_equal sample_getTime sample_old sample_new"
proof -
  have srt: "array_sort (recency_cmp sample_getTime) [sample_old, sample_undated, sample_new]
      = [sample_old, sample_undated, sample_new]"
    by (simp add: array_sort_def recency_cmp_def sample_getTime_def sample_new_def
        sample_old_def sample_undated_def)
  have ids: "id_a sample_new = ''1''" "id_a sample_old = ''2''" "id_a sample_undated = ''3''"
    by (simp_all add: sample_new_def sample_old_def sample_undated_def)
  have sims: "calculateSimilarity sample_old sample_undated = Num 1"
    "calculateSimilarity sample_old sample_new = Num 1"
    "calculateSimilarity sample_undated sample_new = Num 1"
    by (simp_all add: similarity_defs tokenize_defs sample_new_def sample_old_def
        sample_undated_def)
  have "clusterArticles sample_getTime [sample_old, sample_undated, sample_new] (Num 0.35)
     = [\<lparr>articles = [sample_old, sample_undated, sample_new], similarity = Num 1\<rparr>]"
    by (simp add: clusterArticles_def srt avgSimilarity_def sims ids)
  moreover have "\<not> newer_or_equal sample_getTime sample_old sample_new"
    by (simp add: newer_or_equal_def sample_getTime_def sample_new_def sample_old_def)
  ultimately show ?thesis by simp
qed

text \<open>
  Claim C9. Two runs of \<open>clusterArticles\<close> on the same article list and threshold return
  the same list of clusters: the same members in the same order, the same scores, the
  clusters in the same order. A call keeps nothing from an earlier call (the clusters and
  the assigned ids start empty, the input array is copied before it is sorted); the one
  thing a run takes from its surroundings is the reading of the dates, and two runs that
  read the dates of the input alike agree.
\<close>

theorem clusterArticles_deterministic:
  assumes "\<forall>a\<in>set arts. getTime1 (published_at a) = getTime2 (published_at a)"
  shows "clusterArticles getTime1 arts th = clusterArticles getTime2 arts th"
proof -
  have "array_sort (recency_cmp getTime1) arts = array_sort (recency_cmp getTime2) arts"
    by (rule array_sort_cong) (use assms in \<open>simp add: recency_cmp_def\<close>)
  then show ?thesis by (simp add: clusterArticles_def)
qed

theorem clusterArticles_deterministic_witness:
  "list_all (\<lambda>a. sample_getTime (published_at a) = sample_getTime2 (published_at a))
      [sample_old, sample_new]
   \<and> clusterArticles sample_getTime [sample_old, sample_new] (Num 0.35)
       = clusterArticles sample_getTime2 [sample_old, sample_new] (Num 0.35)"
proof -
  have h: "\<forall>a\<in>set [sample_old, sample_new].
      sample_getTime (published_at a) = sample_getTime2 (published_at a)"
    by (simp add: sample_getTime2_def sample_new_def sample_old_def)
  show ?thesis
    using h clusterArticles_deterministic [OF h, of "Num 0.35"] by simp
qed

subsection \<open>Frames of the store\<close>

lemmas store_defs = insert_story_def insert_story_articles_def select_entity_def
  insert_entity_def upsert_story_entity_def upsert_connection_def insert_story_impacts_def
  next_fault_def

lemma final_db_simps [simp]: "final_db (Inl d) = d" "final_db (Inr (v, d)) = d"
  by (simp_all add: final_db_def)

lemma for_each_frame:
  assumes "\<And>x d. f (final_db (body x d)) = f d"
  shows "f (final_db (for_each body xs d)) = f d"
proof (induction xs arbitrary: d)
  case Nil
  then show ?case by simp
next
  case (Cons x xs)
  show ?case
  proof (cases "body x d")
    case (Inl d1)
    then show ?thesis using assms [of x d] by simp
  next
    case (Inr p)
    obtain u d1 where p: "p = (u, d1)" by (cases p)
    have "f d1 = f d" using assms [of x d] Inr p by simp
    then show ?thesis using Inr p Cons.IH [of d1] by simp
  qed
qed

subsection \<open>Only the story insert changes the table of stories\<close>

lemma stories_select_entity [simp]: "stories (final_db (select_entity e n d)) = stories d"
  by (simp add: store_defs split: list.splits fault.splits)

lemma stories_insert_entity [simp]: "stories (final_db (insert_entity n t d)) = stories d"
  by (simp add: store_defs split: list.splits fault.splits)

lemma stories_upsert_story_entity [simp]: "stories (final_db (upsert_story_entity r d)) = stories d"
  by (simp add: store_defs split: list.splits fault.splits)

lemma stories_upsert_connection [simp]: "stories (final_db (upsert_connection r d)) = stories d"
  by (simp add: store_defs split: list.splits fault.splits)

lemma stories_insert_story_impacts [simp]: "stories (final_db (insert_story_impacts r d)) = stories d"
  by (simp add: store_defs Let_def split: list.splits fault.splits)

lemma stories_insert_story_articles [simp]: "stories (final_db (insert_story_articles r d)) = stories d"
  by (simp add: store_defs Let_def split: list.splits fault.splits)

lemma seq_frame:
  assumes "f (final_db r) = f d" and "\<And>v d1. f (final_db (k v d1)) = f d1"
  shows "f (final_db (case r of Inl d1 \<Rightarrow> Inl d1 | Inr p \<Rightarrow> (case p of (v, d1) \<Rightarrow> k v d1))) = f d"
  using assms by (cases r) (auto split: prod.splits)

lemma stories_save_entity [simp]: "stories (final_db (save_entity e sid ent d)) = stories d"
  unfolding save_entity_def Let_def
  apply (rule seq_frame)
   apply simp
  apply (simp split: option.split)
  apply (intro conjI allI impI)
  apply (rule seq_frame)
   apply simp
  apply (simp split: option.split)
  done

lemma stories_save_connection [simp]:
  "stories (final_db (save_connection e sid conn d)) = stories d"
  unfolding save_connection_def
  apply (rule seq_frame)
   apply simp
  apply (rule seq_frame)
   apply simp
  apply (simp split: option.split)
  done

lemma stories_save_impacts [simp]: "stories (final_db (save_impacts sid imps d)) = stories d"
  by (simp add: save_impacts_def Let_def)

lemma stories_save_story_parts [simp]:
  "stories (final_db (save_story_parts e sid syn d)) = stories d"
proof -
  have ents: "\<And>xs d. stories (final_db (for_each (save_entity e sid) xs d)) = stories d"
    by (rule for_each_frame) simp
  have conns: "\<And>xs d. stories (final_db (for_each (save_connection e sid) xs d)) = stories d"
    by (rule for_each_frame) simp
  show ?thesis
    unfolding save_story_parts_def
    apply (simp split: option.split)
    apply (intro conjI allI impI)
    apply (rule seq_frame)
     apply (rule ents)
    apply (simp split: option.split)
    apply (intro conjI allI impI)
    apply (rule seq_frame)
     apply (rule conns)
    apply (simp split: option.split)
    done
qed

subsection \<open>One story per cluster at most\<close>

lemma persist_story_stories:
  assumes "persist_story e c syn d = (r, d')"
  shows "(r = None \<and> stories d' = stories d) \<or>
         (\<exists>row. stories d' = stories d @ [row] \<and> story_title row = syn_title syn
            \<and> story_synthesis row = syn_sections syn \<and> (r = None \<or> r = Some (story_id row)))"
proof (cases "fst (next_fault d) = Works")
  case False
  then have "r = None \<and> stories d' = stories d"
    using assms
    by (cases "fst (next_fault d)")
       (auto simp: persist_story_def insert_story_def next_fault_def split: list.splits prod.splits)
  then show ?thesis by simp
next
  case True
  obtain d0 where nf: "next_fault d = (Works, d0)" using True by (cases "next_fault d") auto
  have d0: "stories d0 = stories d" "next_id d0 = next_id d"
    using nf by (auto simp: next_fault_def split: list.splits)
  let ?sid = "next_id d0"
  let ?row = "\<lparr>story_id = ?sid, story_title = syn_title syn, story_summary = syn_summary syn,
                story_synthesis = syn_sections syn, story_hero_image_url = heroImage (articles c),
                story_status = ''published'', story_published_at = Date_now e\<rparr>"
  let ?d1 = "d0\<lparr>stories := stories d0 @ [?row], next_id := next_id d0 + 1\<rparr>"
  let ?links = "map (\<lambda>a. \<lparr>sa_story_id = ?sid, sa_article_id = id_a a,
                            sa_relevance_score = similarity c\<rparr>) (articles c)"
  have ins: "insert_story (syn_title syn) (syn_summary syn) (syn_sections syn)
               (heroImage (articles c)) (Date_now e) d = Inr (Some ?sid, ?d1)"
    by (simp add: insert_story_def nf)
  have run: "(r, d') = (case insert_story_articles ?links ?d1 of
                Inl d2 \<Rightarrow> (None, d2)
              | Inr (u, d2) \<Rightarrow>
                  (case save_story_parts e ?sid syn d2 of
                     Inl d3 \<Rightarrow> (None, d3)
                   | Inr (u, d3) \<Rightarrow> (Some ?sid, d3)))"
    using assms by (simp add: persist_story_def ins Let_def)
  have A: "stories (final_db (insert_story_articles ?links ?d1)) = stories ?d1" by simp
  have tail: "stories d' = stories ?d1 \<and> (r = None \<or> r = Some ?sid)"
  proof (cases "insert_story_articles ?links ?d1")
    case (Inl d2)
    have "stories d2 = stories ?d1" using A unfolding Inl by simp
    then show ?thesis using run Inl by simp
  next
    case (Inr p)
    obtain u d2 where p: "p = (u, d2)" by (cases p)
    have d2: "stories d2 = stories ?d1" using A unfolding Inr p by simp
    have B: "stories (final_db (save_story_parts e ?sid syn d2)) = stories d2" by simp
    show ?thesis
    proof (cases "save_story_parts e ?sid syn d2")
      case (Inl d3)
      have "stories d3 = stories d2" using B unfolding Inl by simp
      then show ?thesis using run \<open>insert_story_articles ?links ?d1 = Inr p\<close> p Inl d2 by simp
    next
      case (Inr q)
      obtain u' d3 where q: "q = (u', d3)" by (cases q)
      have "stories d3 = stories d2" using B unfolding Inr q by simp
      then show ?thesis
        using run \<open>insert_story_articles ?links ?d1 = Inr p\<close> p Inr q d2 by simp
    qed
  qed
  then have "stories d' = stories d @ [?row] \<and> story_title ?row = syn_title syn
      \<and> story_synthesis ?row = syn_sections syn \<and> (r = None \<or> r = Some (story_id ?row))"
    using d0 by simp
  then show ?thesis by blast
qed

lemma createStoryFromCluster_stories:
  assumes "createStoryFromCluster e c d = (r, d')"
  shows "(r = None \<and> stories d' = stories d) \<or>
         (\<exists>row. stories d' = stories d @ [row] \<and> (r = None \<or> r = Some (story_id row)))"
proof (cases "length (articles c) < 2")
  case True
  then show ?thesis using assms by (simp add: createStoryFromCluster_def)
next
  case False
  show ?thesis
  proof (cases "synthesizeArticles e (articles c)")
    case (Inl err)
    then show ?thesis using assms False by (simp add: createStoryFromCluster_def)
  next
    case (Inr syn)
    then have "persist_story e c syn d = (r, d')"
      using assms False by (simp add: createStoryFromCluster_def)
    from persist_story_stories [OF this] show ?thesis by blast
  qed
qed

lemma create_stories_bounds:
  "create_stories e cs (n, d) = (n', d') \<Longrightarrow>
     n \<le> n' \<and> n' \<le> n + length cs \<and> length (stories d) \<le> length (stories d')
     \<and> length (stories d') \<le> length (stories d) + length cs
     \<and> n' - n \<le> length (stories d') - length (stories d)"
proof (induction cs arbitrary: n d)
  case Nil
  then show ?case by simp
next
  case (Cons c cs)
  obtain r d1 where one: "createStoryFromCluster e c d = (r, d1)"
    by (cases "createStoryFromCluster e c d")
  from createStoryFromCluster_stories [OF one]
  have st: "(r = None \<and> length (stories d1) = length (stories d)) \<or>
            length (stories d1) = length (stories d) + 1"
    by auto
  show ?case
  proof (cases r)
    case None
    then have "create_stories e cs (n, d1) = (n', d')" using Cons.prems one by simp
    from Cons.IH [OF this] show ?thesis using st by auto
  next
    case (Some sid)
    then have "create_stories e cs (n + 1, d1) = (n', d')" using Cons.prems one by simp
    from Cons.IH [OF this] show ?thesis using st Some by auto
  qed
qed

lemma getUnassignedArticles_stories [simp]:
  "stories (final_db (getUnassignedArticles e h d)) = stories d"
  by (auto simp: getUnassignedArticles_def next_fault_def Let_def split: list.splits fault.splits)

subsection \<open>The loop over the connections leaves the table of entities alone\<close>

lemma entities_select_entity [simp]: "entities (final_db (select_entity e n d)) = entities d"
  by (simp add: store_defs split: list.splits fault.splits)

lemma entities_upsert_connection [simp]: "entities (final_db (upsert_connection r d)) = entities d"
  by (simp add: store_defs split: list.splits fault.splits)

lemma entities_save_connection [simp]:
  "entities (final_db (save_connection e sid conn d)) = entities d"
  unfolding save_connection_def
  apply (rule seq_frame)
   apply simp
  apply (rule seq_frame)
   apply simp
  apply (simp split: option.split)
  done

lemma entities_save_connections:
  "entities (final_db (for_each (save_connection e sid) conns d)) = entities d"
  by (rule for_each_frame) simp

subsection \<open>Upsert of a connection\<close>

lemma same_triple_iff: "same_triple r row \<longleftrightarrow> triple r = triple row"
  by (auto simp: same_triple_def triple_def)

lemma filter_unique_key:
  "distinct (map key rows) \<Longrightarrow> r0 \<in> set rows \<Longrightarrow> filter (\<lambda>r. key r = key r0) rows = [r0]"
proof (induction rows)
  case Nil
  then show ?case by simp
next
  case (Cons r rows)
  show ?case
  proof (cases "r = r0")
    case True
    have "key r0 \<notin> key ` set rows" using Cons.prems(1) True by simp
    then have "\<forall>x\<in>set rows. key x \<noteq> key r0" by (metis imageI)
    then have "filter (\<lambda>r. key r = key r0) rows = []" by (simp add: filter_empty_conv)
    then show ?thesis using True by simp
  next
    case False
    then have in_rows: "r0 \<in> set rows" using Cons.prems(2) by simp
    then have "key r \<noteq> key r0" using Cons.prems(1) by auto
    then show ?thesis using Cons.IH in_rows Cons.prems(1) by simp
  qed
qed

lemma upsert_rows_unique:
  assumes "distinct (map triple rows)"
  shows "distinct (map triple (upsert_rows row rows))
       \<and> (\<exists>i. filter (\<lambda>r. triple r = triple row) (upsert_rows row rows) = [row\<lparr>ec_id := i\<rparr>])"
proof (cases "\<exists>r\<in>set rows. same_triple r row")
  case False
  then have none: "\<forall>r\<in>set rows. triple r \<noteq> triple row" by (simp add: same_triple_iff)
  then have "filter (\<lambda>r. triple r = triple row) rows = []" by (simp add: filter_empty_conv)
  moreover have "triple row \<notin> set (map triple rows)" using none by auto
  moreover have "row\<lparr>ec_id := ec_id row\<rparr> = row" by simp
  ultimately show ?thesis
    using False assms unfolding upsert_rows_def by (intro conjI exI [of _ "ec_id row"]) simp_all
next
  case True
  then obtain r0 where r0: "r0 \<in> set rows" "triple r0 = triple row"
    by (auto simp: same_triple_iff)
  let ?g = "\<lambda>r. if same_triple r row then row\<lparr>ec_id := ec_id r\<rparr> else r"
  have up: "upsert_rows row rows = map ?g rows" using True by (simp add: upsert_rows_def)
  have key: "\<And>r. triple (?g r) = triple r"
    by (simp add: same_triple_iff) (simp add: triple_def)
  have keys: "map triple (map ?g rows) = map triple rows"
    unfolding map_map o_def key ..
  have "filter (\<lambda>r. triple r = triple row) (map ?g rows)
      = map ?g (filter (\<lambda>r. triple r = triple row) rows)"
    by (simp add: filter_map o_def key)
  also have "filter (\<lambda>r. triple r = triple row) rows = [r0]"
    using filter_unique_key [OF assms r0(1)] r0(2) by simp
  finally have "filter (\<lambda>r. triple r = triple row) (map ?g rows) = [row\<lparr>ec_id := ec_id r0\<rparr>]"
    using r0(2) by (simp add: same_triple_iff)
  moreover have "distinct (map triple (map ?g rows))" unfolding keys by (rule assms)
  ultimately show ?thesis unfolding up by blast
qed

lemma select_entity_works:
  "faults d = [] \<Longrightarrow>
   select_entity e n d =
     Inr (case filter (\<lambda>r. ilike e n (entity_name r)) (entities d) of
            [r] \<Rightarrow> Some (entity_id r) | _ \<Rightarrow> None, d)"
  by (simp add: select_entity_def next_fault_def split: list.splits)

lemma select_entity_transfer:
  assumes "faults d = []" "faults d1 = []" "entities d1 = entities d"
    and "select_entity e n d = Inr (v, d)"
  shows "select_entity e n d1 = Inr (v, d1)"
  using assms by (simp add: select_entity_works)

lemma save_connection_resolved:
  assumes "faults d = []"
    and "select_entity e (conn_source conn) d = Inr (Some s, d)"
    and "select_entity e (conn_target conn) d = Inr (Some t, d)"
  shows "save_connection e sid conn d =
     Inr ((), d\<lparr>entity_connections :=
                   upsert_rows \<lparr>ec_id = next_id d, ec_source_entity_id = s,
                      ec_target_entity_id = t, ec_relationship_type = conn_relationship conn,
                      ec_relationship_label = relationship_label (conn_relationship conn),
                      ec_strength = conn_strength conn, ec_evidence = conn_evidence conn,
                      ec_story_id = sid\<rparr> (entity_connections d),
                 next_id := next_id d + 1\<rparr>)"
  using assms by (simp add: save_connection_def upsert_connection_def next_fault_def)

lemma save_connection_unresolved:
  assumes "faults d = []"
    and "select_entity e (conn_source conn) d = Inr (None, d)
       \<or> select_entity e (conn_target conn) d = Inr (None, d)"
  shows "save_connection e sid conn d = Inr ((), d)"
proof -
  obtain v where v: "select_entity e (conn_source conn) d = Inr (v, d)"
    using select_entity_works [OF assms(1)] by blast
  obtain w where w: "select_entity e (conn_target conn) d = Inr (w, d)"
    using select_entity_works [OF assms(1)] by blast
  have "v = None \<or> w = None" using assms(2) v w by auto
  then show ?thesis
    using v w by (auto simp: save_connection_def split: option.splits)
qed

text \<open>
  Claim C6. Saving connections never changes the table of entities. With a store that
  works, a connection one of whose names resolves to no entity is skipped: the store is
  left as it is and the loop goes on. And saving a connection twice under the same source,
  target and relationship leaves exactly one row for that triple, which holds the label,
  strength, evidence and story of the second call.
\<close>

theorem connection_merge:
  "entities (final_db (for_each (save_connection e sid) conns d)) = entities d
   \<and> (faults d = [] \<and> (select_entity e (conn_source conn) d = Inr (None, d)
                        \<or> select_entity e (conn_target conn) d = Inr (None, d))
        \<longrightarrow> for_each (save_connection e sid) (conn # rest) d
              = for_each (save_connection e sid) rest d)
   \<and> (faults d = [] \<and> distinct (map triple (entity_connections d))
        \<and> select_entity e (conn_source c1) d = Inr (Some s, d)
        \<and> select_entity e (conn_target c1) d = Inr (Some t, d)
        \<and> conn_source c2 = conn_source c1 \<and> conn_target c2 = conn_target c1
        \<and> conn_relationship c2 = conn_relationship c1
        \<longrightarrow> (\<exists>d1 d2 row.
               save_connection e sid1 c1 d = Inr ((), d1)
             \<and> save_connection e sid2 c2 d1 = Inr ((), d2)
             \<and> filter (\<lambda>r. triple r = (s, t, conn_relationship c1)) (entity_connections d2) = [row]
             \<and> ec_relationship_label row = relationship_label (conn_relationship c2)
             \<and> ec_strength row = conn_strength c2
             \<and> ec_evidence row = conn_evidence c2
             \<and> ec_story_id row = sid2))"
proof (intro conjI impI)
  show "entities (final_db (for_each (save_connection e sid) conns d)) = entities d"
    by (rule entities_save_connections)
next
  assume h: "faults d = [] \<and> (select_entity e (conn_source conn) d = Inr (None, d)
                        \<or> select_entity e (conn_target conn) d = Inr (None, d))"
  then have "save_connection e sid conn d = Inr ((), d)"
    using save_connection_unresolved by blast
  then show "for_each (save_connection e sid) (conn # rest) d
              = for_each (save_connection e sid) rest d"
    by simp
next
  assume h: "faults d = [] \<and> distinct (map triple (entity_connections d))
        \<and> select_entity e (conn_source c1) d = Inr (Some s, d)
        \<and> select_entity e (conn_target c1) d = Inr (Some t, d)
        \<and> conn_source c2 = conn_source c1 \<and> conn_target c2 = conn_target c1
        \<and> conn_relationship c2 = conn_relationship c1"
  let ?rel = "conn_relationship c1"
  let ?row1 = "\<lparr>ec_id = next_id d, ec_source_entity_id = s,
                      ec_target_entity_id = t, ec_relationship_type = ?rel,
                      ec_relationship_label = relationship_label ?rel,
                      ec_strength = conn_strength c1, ec_evidence = conn_evidence c1,
                      ec_story_id = sid1\<rparr>"
  let ?d1 = "d\<lparr>entity_connections := upsert_rows ?row1 (entity_connections d),
                next_id := next_id d + 1\<rparr>"
  let ?row2 = "\<lparr>ec_id = next_id ?d1, ec_source_entity_id = s,
                      ec_target_entity_id = t, ec_relationship_type = conn_relationship c2,
                      ec_relationship_label = relationship_label (conn_relationship c2),
                      ec_strength = conn_strength c2, ec_evidence = conn_evidence c2,
                      ec_story_id = sid2\<rparr>"
  let ?d2 = "?d1\<lparr>entity_connections := upsert_rows ?row2 (entity_connections ?d1),
                next_id := next_id ?d1 + 1\<rparr>"
  have f: "faults d = []" and dist: "distinct (map triple (entity_connections d))"
    and src: "select_entity e (conn_source c1) d = Inr (Some s, d)"
    and tgt: "select_entity e (conn_target c1) d = Inr (Some t, d)"
    and same: "conn_source c2 = conn_source c1" "conn_target c2 = conn_target c1"
      "conn_relationship c2 = conn_relationship c1"
    using h by simp_all
  have first: "save_connection e sid1 c1 d = Inr ((), ?d1)"
    by (rule save_connection_resolved [OF f src tgt])
  have f1: "faults ?d1 = []" and e1: "entities ?d1 = entities d" using f by simp_all
  have src1: "select_entity e (conn_source c2) ?d1 = Inr (Some s, ?d1)"
    using select_entity_transfer [OF f f1 e1 src] same by simp
  have tgt1: "select_entity e (conn_target c2) ?d1 = Inr (Some t, ?d1)"
    using select_entity_transfer [OF f f1 e1 tgt] same by simp
  have second: "save_connection e sid2 c2 ?d1 = Inr ((), ?d2)"
    by (rule save_connection_resolved [OF f1 src1 tgt1])
  have dist1: "distinct (map triple (entity_connections ?d1))"
    using upsert_rows_unique [OF dist, of ?row1] by simp
  obtain i where one: "filter (\<lambda>r. triple r = triple ?row2) (entity_connections ?d2)
      = [?row2\<lparr>ec_id := i\<rparr>]"
    using upsert_rows_unique [OF dist1, of ?row2] by auto
  have key: "triple ?row2 = (s, t, ?rel)" using same by (simp add: triple_def)
  have "filter (\<lambda>r. triple r = (s, t, ?rel)) (entity_connections ?d2) = [?row2\<lparr>ec_id := i\<rparr>]"
    using one unfolding key .
  then show "\<exists>d1 d2 row.
               save_connection e sid1 c1 d = Inr ((), d1)
             \<and> save_connection e sid2 c2 d1 = Inr ((), d2)
             \<and> filter (\<lambda>r. triple r = (s, t, conn_relationship c1)) (entity_connections d2) = [row]
             \<and> ec_relationship_label row = relationship_label (conn_relationship c2)
             \<and> ec_strength row = conn_strength c2
             \<and> ec_evidence row = conn_evidence c2
             \<and> ec_story_id row = sid2"
    using first second
    by (intro exI [of _ ?d1] exI [of _ ?d2] exI [of _ "?row2\<lparr>ec_id := i\<rparr>"]) simp
qed

subsection \<open>Evaluation of the job on the sample data\<close>

lemma sample_fetch:
  "getUnassignedArticles sample_env 48 sample_db = Inr ([sample_new, sample_old], sample_db)"
  by (simp add: getUnassignedArticles_def sample_env_def sample_db_def empty_db_def next_fault_def
      sample_getTime_def array_sort_def row_cmp_def to_article_def sample_new_def sample_old_def)

lemma sample_fetch2:
  "getUnassignedArticles sample_env_no_impacts 48 sample_db = Inr ([sample_new, sample_old], sample_db)"
  by (simp add: getUnassignedArticles_def sample_env_no_impacts_def sample_env_def sample_db_def empty_db_def next_fault_def
      sample_getTime_def array_sort_def row_cmp_def to_article_def sample_new_def sample_old_def)

lemma sample_sort2:
  "array_sort (recency_cmp sample_getTime) [sample_new, sample_old] = [sample_new, sample_old]"
  by (simp add: array_sort_def recency_cmp_def sample_getTime_def sample_new_def sample_old_def)

lemma sample_clusters2:
  "clusterArticles sample_getTime [sample_new, sample_old] (Num 0.35) = [sample_cluster]"
proof -
  have ids: "id_a sample_new = ''1''" "id_a sample_old = ''2''"
    by (simp_all add: sample_new_def sample_old_def)
  show ?thesis
    by (simp add: clusterArticles_def sample_sort2 avgSimilarity_def sample_similarity ids
        sample_cluster_def)
qed

lemma sample_extract_json: "extract_json sample_reply = sample_json"
  by (simp add: extract_json_def trim_def startsWith_def endsWith_def strip_code_fence_def
      sample_reply_def sample_json_def is_space_char_def)

lemma sample_reply_not_empty: "sample_reply \<noteq> []"
  by (simp add: sample_reply_def)

lemma sample_story_no_impacts:
  "createStoryFromCluster sample_env_no_impacts sample_cluster sample_db =
     (None, sample_db\<lparr>stories := [\<lparr>story_id = 1, story_title = ''Fed lifts rates again'',
          story_summary = ''The Federal Reserve raised rates.'',
          story_synthesis = [\<lparr>sec_title = ''Summary'', sec_content = ''Rates went up [AP].'',
             sec_citations = [\<lparr>cite_source = ''AP'', cite_article_id = ''1''\<rparr>]\<rparr>],
          story_hero_image_url = None, story_status = ''published'',
          story_published_at = 1768741200000\<rparr>],
        story_articles := [\<lparr>sa_story_id = 1, sa_article_id = ''1'', sa_relevance_score = Num 1\<rparr>,
          \<lparr>sa_story_id = 1, sa_article_id = ''2'', sa_relevance_score = Num 1\<rparr>],
        entities := [\<lparr>entity_id = 2, entity_name = ''Federal Reserve'', entity_type = ''company''\<rparr>],
        story_entities := [\<lparr>se_story_id = 1, se_entity_id = 2, se_role = ''primary'',
          se_context = ''Raised rates''\<rparr>],
        next_id := 3\<rparr>)"
  by (simp add: createStoryFromCluster_def synthesizeArticles_def try_synthesis_def
      sample_extract_json sample_reply_not_empty sample_env_no_impacts_def sample_env_def sample_payload_def sample_cluster_def
      map_section_def map_citation_def persist_story_def heroImage_def
      insert_story_def insert_story_articles_def next_fault_def sample_db_def empty_db_def
      save_story_parts_def save_entity_def select_entity_def insert_entity_def
      upsert_story_entity_def Let_def sample_new_def sample_old_def)

subsection \<open>Synthesis, story creation and the job\<close>

lemma try_synthesis_fails:
  "groq_create e arts = Rejected \<or> groq_create e arts = Reply None
     \<or> groq_create e arts = Reply (Some [])
     \<or> (\<exists>content. groq_create e arts = Reply (Some content)
            \<and> JSON_parse e (extract_json content) = None)
   \<Longrightarrow> try_synthesis e arts = None"
  by (auto simp: try_synthesis_def)

lemma persist_fallback:
  assumes "faults d = []"
  shows "\<exists>d'. persist_story e c (fallback_synthesis arts) d = (Some (next_id d), d')
     \<and> stories d' = stories d @
          [\<lparr>story_id = next_id d, story_title = title (arts ! 0),
            story_summary = excerpt (arts ! 0),
            story_synthesis = syn_sections (fallback_synthesis arts),
            story_hero_image_url = heroImage (articles c),
            story_status = ''published'', story_published_at = Date_now e\<rparr>]"
  using assms
  by (simp add: persist_story_def insert_story_def insert_story_articles_def next_fault_def
      save_story_parts_def save_impacts_def fallback_synthesis_def Let_def)



lemma few_articles_no_valid_cluster:
  "length arts < 2 \<Longrightarrow> filter (\<lambda>c. 2 \<le> length (articles c)) (clusterArticles g arts th) = []"
proof -
  assume "length arts < 2"
  then consider "arts = []" | a where "arts = [a]"
    by (cases arts; cases "tl arts") auto
  then show ?thesis
    by cases (simp_all add: clusterArticles_def array_sort_def)
qed

text \<open>
  Claim C8. For a cluster of fewer than two articles \<open>createStoryFromCluster\<close> returns
  \<open>null\<close> and leaves the store untouched. \<open>runClusteringJob\<close> runs story creation over
  the clusters of two or more members only: these are the clusters it counts, and it
  creates at most one story for each of them.
\<close>

theorem singletons_discarded:
  "(length (articles c) < 2 \<longrightarrow> createStoryFromCluster e c d = (None, d))
   \<and> (getUnassignedArticles e 48 d = Inr (arts, d1) \<and> runClusteringJob e d = Inr (r, d2) \<longrightarrow>
        (storiesCreated r, d2)
          = create_stories e (filter (\<lambda>c. 2 \<le> length (articles c))
                                (clusterArticles (Date_getTime e) arts (Num 0.35))) (0, d1)
        \<and> clusters r = length (filter (\<lambda>c. 2 \<le> length (articles c))
                                 (clusterArticles (Date_getTime e) arts (Num 0.35)))
        \<and> storiesCreated r \<le> clusters r
        \<and> length (stories d2) \<le> length (stories d1) + clusters r)"
proof (intro conjI impI)
  assume "length (articles c) < 2"
  then show "createStoryFromCluster e c d = (None, d)"
    by (simp add: createStoryFromCluster_def)
next
  assume h: "getUnassignedArticles e 48 d = Inr (arts, d1) \<and> runClusteringJob e d = Inr (r, d2)"
  let ?valid = "filter (\<lambda>c. 2 \<le> length (articles c))
                  (clusterArticles (Date_getTime e) arts (Num 0.35))"
  obtain n d3 where loop: "create_stories e ?valid (0, d1) = (n, d3)"
    by (cases "create_stories e ?valid (0, d1)")
  have res: "storiesCreated r = n \<and> d2 = d3 \<and> clusters r = length ?valid"
  proof (cases "length arts < 2")
    case True
    then have "?valid = []" by (rule few_articles_no_valid_cluster)
    then show ?thesis using h loop True by (auto simp: runClusteringJob_def)
  next
    case False
    then show ?thesis using h loop by (auto simp: runClusteringJob_def Let_def)
  qed
  from create_stories_bounds [OF loop]
  have b: "n \<le> length ?valid" "length (stories d3) \<le> length (stories d1) + length ?valid"
    by simp_all
  show "(storiesCreated r, d2) = create_stories e ?valid (0, d1)" using res loop by simp
  show "clusters r = length ?valid" using res by simp
  show "storiesCreated r \<le> clusters r" using res b by simp
  show "length (stories d2) \<le> length (stories d1) + clusters r" using res b by simp
qed

lemma sample_clusters_job:
  "clusterArticles sample_getTime [sample_new, sample_old] (Num (7 / 20)) = [sample_cluster]"
  using sample_clusters2 by simp

lemma sample_story_fallback:
  "\<exists>d'. createStoryFromCluster sample_env sample_cluster sample_db = (Some 1, d')
     \<and> length (stories d') = 1"
proof -
  have fails: "try_synthesis sample_env [sample_new, sample_old] = None"
    by (simp add: try_synthesis_def sample_env_def)
  have syn: "synthesizeArticles sample_env (articles sample_cluster)
      = Inr (fallback_synthesis [sample_new, sample_old])"
    using fails by (simp add: synthesizeArticles_def sample_cluster_def)
  have f: "faults sample_db = []" and n: "next_id sample_db = 1" and st: "stories sample_db = []"
    by (simp_all add: sample_db_def empty_db_def)
  have two: "\<not> length (articles sample_cluster) < 2" by (simp add: sample_cluster_def)
  have c: "createStoryFromCluster sample_env sample_cluster sample_db
      = persist_story sample_env sample_cluster (fallback_synthesis [sample_new, sample_old]) sample_db"
    unfolding createStoryFromCluster_def using two syn by simp
  from persist_fallback [OF f, of sample_env sample_cluster "[sample_new, sample_old]"]
  obtain d' where "persist_story sample_env sample_cluster (fallback_synthesis [sample_new, sample_old]) sample_db
      = (Some (next_id sample_db), d')" and "length (stories d') = length (stories sample_db) + 1"
    by auto
  then show ?thesis unfolding c n st by auto
qed

theorem singletons_discarded_witness:
  "length (articles \<lparr>articles = [sample_new], similarity = Num 1\<rparr>) < 2
   \<and> createStoryFromCluster sample_env \<lparr>articles = [sample_new], similarity = Num 1\<rparr> sample_db
       = (None, sample_db)
   \<and> getUnassignedArticles sample_env 48 sample_db = Inr ([sample_new, sample_old], sample_db)
   \<and> (\<exists>r d2. runClusteringJob sample_env sample_db = Inr (r, d2)
         \<and> clusters r = 1 \<and> storiesCreated r = 1 \<and> length (stories d2) \<le> 1)"
proof -
  from sample_story_fallback
  obtain d' where one: "createStoryFromCluster sample_env sample_cluster sample_db = (Some 1, d')"
    by auto
  have gt: "Date_getTime sample_env = sample_getTime" by (simp add: sample_env_def)
  have arts: "articles sample_cluster = [sample_new, sample_old]"
    by (simp add: sample_cluster_def)
  have job: "runClusteringJob sample_env sample_db
      = Inr (\<lparr>articlesProcessed = 2, storiesCreated = 1, clusters = 1\<rparr>, d')"
    unfolding runClusteringJob_def sample_fetch
    by (simp add: gt sample_clusters_job arts one)
  have st: "stories sample_db = []" by (simp add: sample_db_def empty_db_def)
  have small: "length (articles \<lparr>articles = [sample_new], similarity = Num 1\<rparr>) < 2" by simp
  note th = singletons_discarded [of "\<lparr>articles = [sample_new], similarity = Num 1\<rparr>"
      sample_env sample_db "[sample_new, sample_old]" sample_db
      "\<lparr>articlesProcessed = 2, storiesCreated = 1, clusters = 1\<rparr>" d']
  have a: "createStoryFromCluster sample_env \<lparr>articles = [sample_new], similarity = Num 1\<rparr> sample_db
       = (None, sample_db)"
    using th [THEN conjunct1, THEN mp, OF small] .
  have "length (stories d') \<le> length (stories sample_db)
          + clusters \<lparr>articlesProcessed = 2, storiesCreated = 1, clusters = 1\<rparr>"
    using th [THEN conjunct2, THEN mp, OF conjI [OF sample_fetch job]] by (elim conjE)
  then have b: "length (stories d') \<le> 1" unfolding st by simp
  have "\<exists>r d2. runClusteringJob sample_env sample_db = Inr (r, d2)
         \<and> clusters r = 1 \<and> storiesCreated r = 1 \<and> length (stories d2) \<le> 1"
    using job b by (intro exI [of _ "\<lparr>articlesProcessed = 2, storiesCreated = 1, clusters = 1\<rparr>"]
        exI [of _ d']) simp
  then show ?thesis using small a sample_fetch by (intro conjI)
qed

theorem connection_merge_witness:
  "faults sample_graph_db = []
   \<and> select_entity sample_env (conn_source sample_conn3) sample_graph_db = Inr (None, sample_graph_db)
   \<and> for_each (save_connection sample_env 7) [sample_conn3] sample_graph_db = Inr ((), sample_graph_db)
   \<and> distinct (map triple (entity_connections sample_graph_db))
   \<and> select_entity sample_env (conn_source sample_conn1) sample_graph_db = Inr (Some 2, sample_graph_db)
   \<and> select_entity sample_env (conn_target sample_conn1) sample_graph_db = Inr (Some 1, sample_graph_db)
   \<and> (\<exists>d1 d2 row.
         save_connection sample_env 7 sample_conn1 sample_graph_db = Inr ((), d1)
       \<and> save_connection sample_env 8 sample_conn2 d1 = Inr ((), d2)
       \<and> filter (\<lambda>r. triple r = (2, 1, ''works_for'')) (entity_connections d2) = [row]
       \<and> ec_relationship_label row = ''works for''
       \<and> ec_strength row = 0.9
       \<and> ec_evidence row = ''Announced the decision''
       \<and> ec_story_id row = 8)"
proof -
  have f: "faults sample_graph_db = []"
    and dist: "distinct (map triple (entity_connections sample_graph_db))"
    by (simp_all add: sample_graph_db_def empty_db_def)
  have none: "select_entity sample_env (conn_source sample_conn3) sample_graph_db
      = Inr (None, sample_graph_db)"
    unfolding select_entity_works [OF f]
    by (simp add: sample_graph_db_def empty_db_def sample_env_def sample_conn3_def
        toLowerCase_def toLowerCase_char_def)
  have src: "select_entity sample_env (conn_source sample_conn1) sample_graph_db
      = Inr (Some 2, sample_graph_db)"
    unfolding select_entity_works [OF f]
    by (simp add: sample_graph_db_def empty_db_def sample_env_def sample_conn1_def
        toLowerCase_def toLowerCase_char_def)
  have tgt: "select_entity sample_env (conn_target sample_conn1) sample_graph_db
      = Inr (Some 1, sample_graph_db)"
    unfolding select_entity_works [OF f]
    by (simp add: sample_graph_db_def empty_db_def sample_env_def sample_conn1_def
        toLowerCase_def toLowerCase_char_def)
  have same: "conn_source sample_conn2 = conn_source sample_conn1"
    "conn_target sample_conn2 = conn_target sample_conn1"
    "conn_relationship sample_conn2 = conn_relationship sample_conn1"
    by (simp_all add: sample_conn1_def sample_conn2_def)
  have vals: "conn_relationship sample_conn1 = ''works_for''"
    "relationship_label (conn_relationship sample_conn2) = ''works for''"
    "conn_strength sample_conn2 = 0.9" "conn_evidence sample_conn2 = ''Announced the decision''"
    by (simp_all add: sample_conn1_def sample_conn2_def relationship_label_def)
  note th = connection_merge [of sample_env 7 "[]" sample_graph_db sample_conn3 "[]"
      sample_conn1 2 1 sample_conn2 7 8]
  have "for_each (save_connection sample_env 7) [sample_conn3] sample_graph_db
      = for_each (save_connection sample_env 7) [] sample_graph_db"
    using th [THEN conjunct2, THEN conjunct1, THEN mp, OF conjI [OF f disjI1 [OF none]]] .
  then have skip: "for_each (save_connection sample_env 7) [sample_conn3] sample_graph_db
      = Inr ((), sample_graph_db)"
    by simp
  have merged: "\<exists>d1 d2 row.
         save_connection sample_env 7 sample_conn1 sample_graph_db = Inr ((), d1)
       \<and> save_connection sample_env 8 sample_conn2 d1 = Inr ((), d2)
       \<and> filter (\<lambda>r. triple r = (2, 1, conn_relationship sample_conn1)) (entity_connections d2) = [row]
       \<and> ec_relationship_label row = relationship_label (conn_relationship sample_conn2)
       \<and> ec_strength row = conn_strength sample_conn2
       \<and> ec_evidence row = conn_evidence sample_conn2
       \<and> ec_story_id row = 8"
  proof -
    have hyp: "faults sample_graph_db = []
        \<and> distinct (map triple (entity_connections sample_graph_db))
        \<and> select_entity sample_env (conn_source sample_conn1) sample_graph_db
            = Inr (Some 2, sample_graph_db)
        \<and> select_entity sample_env (conn_target sample_conn1) sample_graph_db
            = Inr (Some 1, sample_graph_db)
        \<and> conn_source sample_conn2 = conn_source sample_conn1
        \<and> conn_target sample_conn2 = conn_target sample_conn1
        \<and> conn_relationship sample_conn2 = conn_relationship sample_conn1"
      using f dist src tgt same by (intro conjI)
    show ?thesis using th [THEN conjunct2, THEN conjunct2, THEN mp, OF hyp] .
  qed
  have merged': "\<exists>d1 d2 row.
         save_connection sample_env 7 sample_conn1 sample_graph_db = Inr ((), d1)
       \<and> save_connection sample_env 8 sample_conn2 d1 = Inr ((), d2)
       \<and> filter (\<lambda>r. triple r = (2, 1, ''works_for'')) (entity_connections d2) = [row]
       \<and> ec_relationship_label row = ''works for''
       \<and> ec_strength row = 0.9
       \<and> ec_evidence row = ''Announced the decision''
       \<and> ec_story_id row = 8"
    using merged unfolding vals .
  show ?thesis using f none skip dist src tgt merged' by (intro conjI)
qed

text \<open>
  Claim C7 says that \<open>storiesCreated\<close> is the number of clusters for which a story was
  created. Here the service replies with a synthesis that has no \<open>impacts\<close>: the Story is
  inserted and published and its two articles are linked, then reading the impacts raises,
  the \<open>catch\<close> block returns \<open>null\<close>, and the job reports no story.
\<close>

theorem story_persisted_but_not_counted:
  "(case runClusteringJob sample_env_no_impacts sample_db of
      Inl d \<Rightarrow> False
    | Inr (r, d') \<Rightarrow>
        clusters r = 1 \<and> storiesCreated r = 0
        \<and> map story_title (stories d') = [''Fed lifts rates again'']
        \<and> map story_status (stories d') = [''published'']
        \<and> map sa_article_id (story_articles d') = [''1'', ''2''])"
proof -
  have gt: "Date_getTime sample_env_no_impacts = sample_getTime"
    by (simp add: sample_env_no_impacts_def sample_env_def)
  have arts: "articles sample_cluster = [sample_new, sample_old]"
    by (simp add: sample_cluster_def)
  show ?thesis
    unfolding runClusteringJob_def sample_fetch2
    by (simp add: gt sample_clusters_job arts sample_story_no_impacts)
qed

subsection \<open>The guard of the scheduler\<close>

lemma guard_ok_idle: "guard_ok idle"
  by (simp add: guard_ok_def idle_def)

lemma guard_ok_trigger: "guard_ok g \<Longrightarrow> guard_ok (trigger now g)"
  by (auto simp: guard_ok_def trigger_def)

lemma guard_ok_settle: "guard_ok g \<Longrightarrow> guard_ok (settle outcome g)"
  by (auto simp: guard_ok_def settle_def Let_def split: sum.splits)

lemma guard_ok_post_stories_cluster: "guard_ok g \<Longrightarrow> guard_ok (post_stories_cluster g)"
  by (simp add: guard_ok_def post_stories_cluster_def)

lemma guard_ok_post_stories_cluster_reply:
  "guard_ok g \<Longrightarrow> guard_ok (post_stories_cluster_reply outcome g)"
  by (simp add: guard_ok_def post_stories_cluster_reply_def)

lemma guard_ok_step:
  "guard_ok (guard_of jt s) \<Longrightarrow> guard_ok (guard_of jt (step s ev))"
  by (cases "(s, ev)" rule: step.cases; cases jt)
     (simp_all add: guard_ok_trigger guard_ok_settle guard_ok_post_stories_cluster
        guard_ok_post_stories_cluster_reply)

lemma guard_ok_run:
  "guard_ok (guard_of jt s) \<Longrightarrow> guard_ok (guard_of jt (run s evs))"
  unfolding run_def
  by (induction evs arbitrary: s) (simp_all add: guard_ok_step)

lemma guard_ok_initial: "guard_ok (guard_of jt initial_jobStatus)"
  by (cases jt) (simp_all add: initial_jobStatus_def guard_ok_idle)

lemma trigger_while_running: "isRunning (job g) \<Longrightarrow> trigger now g = g"
  by (simp add: trigger_def)

lemma step_trigger_while_running:
  "isRunning (job (guard_of jt s)) \<Longrightarrow> step s (Trigger jt now) = s"
  by (cases jt) (simp_all add: trigger_while_running)

lemma settle_clears:
  "guard_ok g \<Longrightarrow> \<not> isRunning (job (settle outcome g))"
  by (auto simp: guard_ok_def settle_def Let_def split: sum.splits)

lemma step_settle_clears:
  "guard_ok (guard_of jt s) \<Longrightarrow> \<not> isRunning (job (guard_of jt (step s (Settle jt outcome))))"
  by (cases jt) (simp_all add: settle_clears)

lemma step_keeps_running:
  "isRunning (job (guard_of jt s)) \<Longrightarrow> \<not> settles jt ev \<Longrightarrow> \<not> bypasses jt ev \<Longrightarrow>
     isRunning (job (guard_of jt (step s ev))) \<and>
     started (guard_of jt (step s ev)) = started (guard_of jt s)"
  by (cases "(s, ev)" rule: step.cases; cases jt)
     (simp_all add: trigger_def post_stories_cluster_reply_def)

lemma run_keeps_running:
  "isRunning (job (guard_of jt s)) \<Longrightarrow>
   list_all (\<lambda>ev. \<not> settles jt ev \<and> \<not> bypasses jt ev) evs \<Longrightarrow>
     started (guard_of jt (run s evs)) = started (guard_of jt s)"
  unfolding run_def
proof (induction evs arbitrary: s)
  case Nil
  then show ?case by simp
next
  case (Cons ev evs)
  have k: "isRunning (job (guard_of jt (step s ev)))"
    "started (guard_of jt (step s ev)) = started (guard_of jt s)"
    using step_keeps_running [of jt s ev] Cons.prems by simp_all
  have "started (guard_of jt (foldl step (step s ev) evs)) = started (guard_of jt (step s ev))"
    using Cons.IH [OF k(1)] Cons.prems(2) by simp
  then show ?case using k(2) by simp
qed

lemma first_trigger_starts:
  "\<not> isRunning (job (guard_of jt s)) \<Longrightarrow>
     isRunning (job (guard_of jt (step s (Trigger jt t)))) \<and>
     started (guard_of jt (step s (Trigger jt t))) = started (guard_of jt s) + 1"
  by (cases jt) (simp_all add: trigger_def)

text \<open>
  The guard of the wrappers. For each job type, at any moment after any history of events:
  a call of the wrapper that finds the running flag set returns at once and changes
  nothing, so no body is started; from an idle job, a call of the wrapper followed by any
  events, none of them the settling of its body or a request to the route, starts the body
  exactly once; when the body settles, with a result or with an error, the flag is
  cleared; and at most one body started by the wrapper is ever in flight.
\<close>

lemma wrapper_single_flight:
  assumes "s = run initial_jobStatus history"
  shows "(isRunning (job (guard_of jt s)) \<longrightarrow> step s (Trigger jt now) = s)
       \<and> (\<not> isRunning (job (guard_of jt s))
            \<and> list_all (\<lambda>ev. \<not> settles jt ev \<and> \<not> bypasses jt ev) evs \<longrightarrow>
             started (guard_of jt (run s (Trigger jt t # evs))) = started (guard_of jt s) + 1)
       \<and> \<not> isRunning (job (guard_of jt (step s (Settle jt outcome))))
       \<and> in_flight (guard_of jt s) \<le> 1"
proof -
  have ok: "guard_ok (guard_of jt s)"
    unfolding assms by (rule guard_ok_run [OF guard_ok_initial])
  have a: "isRunning (job (guard_of jt s)) \<longrightarrow> step s (Trigger jt now) = s"
    using step_trigger_while_running by blast
  have b: "\<not> isRunning (job (guard_of jt s))
            \<and> list_all (\<lambda>ev. \<not> settles jt ev \<and> \<not> bypasses jt ev) evs \<longrightarrow>
             started (guard_of jt (run s (Trigger jt t # evs))) = started (guard_of jt s) + 1"
  proof
    assume h: "\<not> isRunning (job (guard_of jt s))
                \<and> list_all (\<lambda>ev. \<not> settles jt ev \<and> \<not> bypasses jt ev) evs"
    let ?s1 = "step s (Trigger jt t)"
    have f: "isRunning (job (guard_of jt ?s1))"
      "started (guard_of jt ?s1) = started (guard_of jt s) + 1"
      using first_trigger_starts [of jt s t] h by simp_all
    have "run s (Trigger jt t # evs) = run ?s1 evs" by (simp add: run_def)
    then show "started (guard_of jt (run s (Trigger jt t # evs))) = started (guard_of jt s) + 1"
      using run_keeps_running [OF f(1)] h f(2) by simp
  qed
  have c: "\<not> isRunning (job (guard_of jt (step s (Settle jt outcome))))"
    using step_settle_clears [OF ok] .
  have d: "in_flight (guard_of jt s) \<le> 1" using ok by (simp add: guard_ok_def)
  show ?thesis using a b c d by blast
qed

lemma post_stories_cluster_starts:
  "started (clustering (step s Post_stories_cluster)) = started (clustering s) + 1
   \<and> job (clustering (step s Post_stories_cluster)) = job (clustering s)"
  by (simp add: post_stories_cluster_def)

text \<open>
  Claim C5 does not hold of the clustering job. A timer calls the wrapper at time 10: the
  flag is set and the body has been started once. A request to \<open>POST /api/stories/cluster\<close>
  that arrives now, while the flag is set, does not return at once: it changes the state,
  the body has been started twice and two bodies are in flight. Two requests to the route
  that arrive one after the other at an idle scheduler, before either body settles, start
  the body twice as well, and the flag is never set.
\<close>

theorem route_trigger_bypasses_guard:
  "isRunning (job (clustering
      (run (initial_jobStatus :: job_result jobStatus) [Trigger Clustering 10])))
   \<and> started (clustering
      (run (initial_jobStatus :: job_result jobStatus) [Trigger Clustering 10])) = 1
   \<and> step (run (initial_jobStatus :: job_result jobStatus) [Trigger Clustering 10])
          Post_stories_cluster
       \<noteq> run initial_jobStatus [Trigger Clustering 10]
   \<and> started (clustering
      (run (initial_jobStatus :: job_result jobStatus)
           [Trigger Clustering 10, Post_stories_cluster])) = 2
   \<and> bodies_in_flight (clustering
      (run (initial_jobStatus :: job_result jobStatus)
           [Trigger Clustering 10, Post_stories_cluster])) = 2
   \<and> started (clustering
      (run (initial_jobStatus :: job_result jobStatus)
           [Post_stories_cluster, Post_stories_cluster])) = 2
   \<and> bodies_in_flight (clustering
      (run (initial_jobStatus :: job_result jobStatus)
           [Post_stories_cluster, Post_stories_cluster])) = 2
   \<and> \<not> isRunning (job (clustering
      (run (initial_jobStatus :: job_result jobStatus)
           [Post_stories_cluster, Post_stories_cluster])))"
  by (simp add: run_def initial_jobStatus_def idle_def trigger_def post_stories_cluster_def
        bodies_in_flight_def)

subsection \<open>The range of the similarity\<close>

lemma jaccard_formula:
  assumes "tokens1 \<noteq> [] \<or> tokens2 \<noteq> []"
  shows "jaccardSimilarity tokens1 tokens2
       = Num (real (card (set tokens1 \<inter> set tokens2)) / real (card (set tokens1 \<union> set tokens2)))"
proof -
  have inter: "length (new_Set (filter (\<lambda>x. x \<in> set (new_Set tokens2)) (new_Set tokens1)))
      = card (set tokens1 \<inter> set tokens2)"
    by (simp add: length_new_Set Int_def conj_commute)
  have union: "length (new_Set (new_Set tokens1 @ new_Set tokens2))
      = card (set tokens1 \<union> set tokens2)"
    by (simp add: length_new_Set)
  have "set tokens1 \<union> set tokens2 \<noteq> {}" using assms by auto
  then have "card (set tokens1 \<union> set tokens2) \<noteq> 0" by simp
  then show ?thesis
    unfolding jaccardSimilarity_def Let_def inter union by simp
qed

lemma jaccard_range:
  assumes "tokens1 \<noteq> [] \<or> tokens2 \<noteq> []"
  shows "\<exists>r. jaccardSimilarity tokens1 tokens2 = Num r \<and> 0 \<le> r \<and> r \<le> 1"
proof -
  have le: "card (set tokens1 \<inter> set tokens2) \<le> card (set tokens1 \<union> set tokens2)"
    by (rule card_mono) auto
  have "set tokens1 \<union> set tokens2 \<noteq> {}" using assms by auto
  then have pos: "0 < card (set tokens1 \<union> set tokens2)" by (simp add: card_gt_0_iff)
  have "real (card (set tokens1 \<inter> set tokens2)) / real (card (set tokens1 \<union> set tokens2)) \<le> 1"
    using le pos by (simp add: divide_le_eq_1)
  then show ?thesis unfolding jaccard_formula [OF assms] by simp
qed

lemma sum_list_cauchy_schwarz:
  fixes f g :: "'a \<Rightarrow> real"
  shows "(\<Sum>x\<leftarrow>xs. f x * g x)\<^sup>2 \<le> (\<Sum>x\<leftarrow>xs. (f x)\<^sup>2) * (\<Sum>x\<leftarrow>xs. (g x)\<^sup>2)"
proof (induction xs)
  case Nil
  then show ?case by simp
next
  case (Cons h xs)
  define D where "D = (\<Sum>x\<leftarrow>xs. f x * g x)"
  define A where "A = (\<Sum>x\<leftarrow>xs. (f x)\<^sup>2)"
  define B where "B = (\<Sum>x\<leftarrow>xs. (g x)\<^sup>2)"
  define p where "p = (f h)\<^sup>2 * B"
  define q where "q = (g h)\<^sup>2 * A"
  have A0: "0 \<le> A" unfolding A_def by (rule sum_list_nonneg) auto
  have B0: "0 \<le> B" unfolding B_def by (rule sum_list_nonneg) auto
  have ih: "D\<^sup>2 \<le> A * B" using Cons.IH by (simp add: D_def A_def B_def)
  have pq0: "0 \<le> p + q" unfolding p_def q_def using A0 B0 by simp
  have "(2 * f h * g h * D)\<^sup>2 = 4 * ((f h)\<^sup>2 * (g h)\<^sup>2) * D\<^sup>2"
    by (simp add: power2_eq_square)
  also have "\<dots> \<le> 4 * ((f h)\<^sup>2 * (g h)\<^sup>2) * (A * B)"
    by (rule mult_left_mono [OF ih]) simp
  also have "\<dots> = 4 * p * q" by (simp add: p_def q_def)
  also have "\<dots> \<le> (p + q)\<^sup>2"
  proof -
    have "(p + q)\<^sup>2 - 4 * p * q = (p - q)\<^sup>2" by (simp add: power2_eq_square algebra_simps)
    moreover have "0 \<le> (p - q)\<^sup>2" by simp
    ultimately show ?thesis by linarith
  qed
  finally have "2 * f h * g h * D \<le> p + q"
    using pq0 by (rule power2_le_imp_le)
  then have "(f h * g h + D)\<^sup>2 \<le> ((f h)\<^sup>2 + A) * ((g h)\<^sup>2 + B)"
    using ih by (simp add: power2_eq_square algebra_simps p_def q_def)
  then show ?case by (simp add: D_def A_def B_def)
qed

lemma cosine_range: "\<exists>r. cosineSimilarity tokens1 tokens2 = Num r \<and> 0 \<le> r \<and> r \<le> 1"
proof -
  define T where "T = new_Set (new_Set tokens1 @ new_Set tokens2)"
  define a where "a = (\<lambda>t. real (freq_get (freq_of tokens1) t))"
  define b where "b = (\<lambda>t. real (freq_get (freq_of tokens2) t))"
  define dot where "dot = sum_list (map (\<lambda>t. freq_get (freq_of tokens1) t * freq_get (freq_of tokens2) t) T)"
  define m1 where "m1 = sum_list (map (\<lambda>t. freq_get (freq_of tokens1) t * freq_get (freq_of tokens1) t) T)"
  define m2 where "m2 = sum_list (map (\<lambda>t. freq_get (freq_of tokens2) t * freq_get (freq_of tokens2) t) T)"
  have rd: "real dot = (\<Sum>t\<leftarrow>T. a t * b t)"
    unfolding dot_def a_def b_def by (induction T) simp_all
  have r1: "real m1 = (\<Sum>t\<leftarrow>T. (a t)\<^sup>2)"
    unfolding m1_def a_def by (induction T) (simp_all add: power2_eq_square)
  have r2: "real m2 = (\<Sum>t\<leftarrow>T. (b t)\<^sup>2)"
    unfolding m2_def b_def by (induction T) (simp_all add: power2_eq_square)
  have "(real dot)\<^sup>2 \<le> real m1 * real m2"
    unfolding rd r1 r2 by (rule sum_list_cauchy_schwarz)
  then have "real dot \<le> sqrt (real m1 * real m2)" by (rule real_le_rsqrt)
  then have le: "real dot \<le> sqrt (real m1) * sqrt (real m2)" by (simp add: real_sqrt_mult)
  have cos: "cosineSimilarity tokens1 tokens2
      = (if m1 = 0 \<or> m2 = 0 then Num 0
         else Num (real dot / (sqrt (real m1) * sqrt (real m2))))"
    by (simp add: cosineSimilarity_def Let_def T_def dot_def m1_def m2_def)
  show ?thesis
  proof (cases "m1 = 0 \<or> m2 = 0")
    case True
    then show ?thesis unfolding cos by simp
  next
    case False
    then have pos: "0 < sqrt (real m1) * sqrt (real m2)" by simp
    have "real dot / (sqrt (real m1) * sqrt (real m2)) \<le> 1"
      using le pos by (simp add: divide_le_eq_1)
    moreover have "0 \<le> real dot / (sqrt (real m1) * sqrt (real m2))" by simp
    ultimately show ?thesis unfolding cos using False by simp
  qed
qed

lemma calculateSimilarity_range:
  assumes "tokenize (article_text a) \<noteq> [] \<or> tokenize (article_text b) \<noteq> []"
  shows "\<exists>r. calculateSimilarity a b = Num r \<and> 0 \<le> r \<and> r \<le> 1"
proof -
  obtain j where j: "jaccardSimilarity (tokenize (article_text a)) (tokenize (article_text b)) = Num j"
    "0 \<le> j" "j \<le> 1"
    using jaccard_range [OF assms] by blast
  obtain c where c: "cosineSimilarity (tokenize (article_text a)) (tokenize (article_text b)) = Num c"
    "0 \<le> c" "c \<le> 1"
    using cosine_range by blast
  have "calculateSimilarity a b = Num ((j + c) / 2)"
    by (simp add: calculateSimilarity_def Let_def j(1) c(1))
  moreover have "0 \<le> (j + c) / 2" "(j + c) / 2 \<le> 1" using j c by simp_all
  ultimately show ?thesis by blast
qed

text \<open>
  Claim C3 says that \<open>jaccardSimilarity\<close> returns 0 when both token lists are empty and
  that \<open>calculateSimilarity\<close> is always in the interval from 0 to 1. The quotient of the
  two sizes is \<open>0 / 0\<close> there, which is \<open>NaN\<close>, and it makes the combined score of two
  articles without significant words \<open>NaN\<close>. (\<open>cosineSimilarity\<close> returns 0 in the like
  case, by its test of the magnitudes, and for every other pair of token lists both
  claims hold: \<open>jaccard_formula\<close>, \<open>calculateSimilarity_range\<close>.)
\<close>

theorem jaccard_of_empty_token_lists:
  "jaccardSimilarity [] [] = NaN
   \<and> tokenize (article_text sample_stop1) = []
   \<and> tokenize (article_text sample_stop2) = []
   \<and> calculateSimilarity sample_stop1 sample_stop2 = NaN"
proof -
  have j: "jaccardSimilarity [] [] = NaN"
    by (simp add: jaccardSimilarity_def new_Set_def)
  have t1: "tokenize (article_text sample_stop1) = []"
    by (simp add: article_text_def sample_stop1_def tokenize_defs)
  have t2: "tokenize (article_text sample_stop2) = []"
    by (simp add: article_text_def sample_stop2_def tokenize_defs)
  have "calculateSimilarity sample_stop1 sample_stop2 = NaN"
    unfolding calculateSimilarity_def Let_def t1 t2 j
    by (simp add: cosineSimilarity_def new_Set_def freq_of_def)
  then show ?thesis using j t1 t2 by simp
qed

subsection \<open>The loop over the clusters goes on after a failure\<close>

lemma create_stories_append:
  "create_stories e (cs1 @ cs2) st = create_stories e cs2 (create_stories e cs1 st)"
proof (induction cs1 arbitrary: st)
  case Nil
  show ?case by (cases st) simp
next
  case (Cons c cs1)
  obtain n d where st: "st = (n, d)" by (cases st)
  obtain r d1 where one: "createStoryFromCluster e c d = (r, d1)"
    by (cases "createStoryFromCluster e c d")
  show ?case using Cons.IH st one by (cases r) simp_all
qed

end
